theory Spec2Isabelle
  imports Main "HOL-Library.Code_Target_Nat"
begin

section \<open>Outcomes\<close>

text \<open>
  The loader raises one kind of exception, \<^verbatim>\<open>MachineException(INVALID_PROGRAM, ...)\<close>.
  The C++ reads the image through raw pointers; a read of a byte that is not inside
  \<^verbatim>\<open>m_binary\<close> is undefined behaviour there.  The model makes every such read an
  outcome of its own, \<open>OUT_OF_BOUNDS_READ\<close>: it is not an exception of the program, it
  marks the inputs on which the program leaves its buffer.
\<close>

datatype error = INVALID_PROGRAM | OUT_OF_BOUNDS_READ

definition then_do :: "error + 'a \<Rightarrow> ('a \<Rightarrow> error + 'b) \<Rightarrow> error + 'b" where
  "then_do r f = (case r of Inl e \<Rightarrow> Inl e | Inr v \<Rightarrow> f v)"

lemma then_do_cong [fundef_cong]:
  "r = r' \<Longrightarrow> (\<And>v. r' = Inr v \<Longrightarrow> f v = f' v) \<Longrightarrow> then_do r f = then_do r' f'"
  by (auto simp: then_do_def split: sum.splits)

lemma then_do_Inr [simp]: "then_do (Inr v) f = f v"
  by (simp add: then_do_def)

lemma then_do_Inl [simp]: "then_do (Inl e) f = Inl e"
  by (simp add: then_do_def)

section \<open>The raw image and its little-endian fields\<close>

text \<open>
  \<^verbatim>\<open>m_binary\<close> is a \<^verbatim>\<open>std::string_view\<close>: an address, \<^verbatim>\<open>m_binary.data()\<close>, and a
  sequence of bytes.  The bytes are a list of \<^typ>\<open>char\<close> (a \<^typ>\<open>char\<close> of HOL is one
  byte); the address is the argument \<open>data\<close> of the functions that compare pointers.
  A pointer is kept as its offset from \<^verbatim>\<open>m_binary.data()\<close>; \<^verbatim>\<open>endptr\<close> is the offset
  \<open>length bin\<close>.
\<close>

type_synonym raw_image = string

definition NUL :: char where
  "NUL = CHR 0x00"

fun le_nat :: "char list \<Rightarrow> nat" where
  "le_nat [] = 0"
| "le_nat (c # cs) = of_char c + 256 * le_nat cs"

definition read_le :: "raw_image \<Rightarrow> nat \<Rightarrow> nat \<Rightarrow> error + nat" where
  "read_le bin off n =
     (if off + n \<le> length bin then Inr (le_nat (take n (drop off bin)))
      else Inl OUT_OF_BOUNDS_READ)"

section \<open>Pointers\<close>

text \<open>
  The library is built for hosts with 64-bit pointers, whatever the width \<open>W\<close> of the
  guest.  The sum of a pointer and an index is taken modulo \<open>2 ^ 64\<close>: with an unchecked
  64-bit \<^verbatim>\<open>sh_offset\<close> the pointer \<^verbatim>\<open>m_binary.data() + sh_offset\<close> can lie anywhere, and a
  further index can bring it back into the image.  The byte at the offset \<open>p\<close> has the
  address \<open>address data p\<close>, where \<open>data\<close> is \<^verbatim>\<open>m_binary.data()\<close>; two pointers are
  compared by their addresses.  \<open>ptr_diff a b\<close> is the difference \<^verbatim>\<open>a - b\<close> of two
  pointers as a \<^verbatim>\<open>size_t\<close>.
\<close>

definition ptr_mod :: nat where
  "ptr_mod = 2 ^ 64"

definition ptr_add :: "nat \<Rightarrow> nat \<Rightarrow> nat" where
  "ptr_add p k = (p + k) mod ptr_mod"

definition address :: "nat \<Rightarrow> nat \<Rightarrow> nat" where
  "address data p = (data + p) mod ptr_mod"

definition ptr_diff :: "nat \<Rightarrow> nat \<Rightarrow> nat" where
  "ptr_diff a b = (if b \<le> a then a - b else a + ptr_mod - b)"

section \<open>The structures of the image\<close>

text \<open>
  Modelled from the spec: the declarations of \<^verbatim>\<open>Elf<W>\<close> (its \<^verbatim>\<open>Header\<close>,
  \<^verbatim>\<open>SectionHeader\<close>, \<^verbatim>\<open>Sym\<close> and \<^verbatim>\<open>Rela\<close> structs) are in a header file outside
  this development.  The spec fixes them as the standard ELF32 and ELF64 layouts; the 32-bit
  layout is used for \<open>W = 4\<close>, the 64-bit one otherwise.  Each accessor reads the bytes of
  its field only.
\<close>

definition sizeof_Shdr :: "nat \<Rightarrow> nat" where
  "sizeof_Shdr W = (if W = 4 then 40 else 64)"

definition sizeof_Sym :: "nat \<Rightarrow> nat" where
  "sizeof_Sym W = (if W = 4 then 16 else 24)"

definition sizeof_Rela :: "nat \<Rightarrow> nat" where
  "sizeof_Rela W = (if W = 4 then 12 else 24)"

text \<open>
  Modelled from the spec: \<^verbatim>\<open>elf_header()\<close> is declared outside this development; the
  ELF header is the struct at offset 0 of the image.
\<close>

definition e_shoff :: "nat \<Rightarrow> raw_image \<Rightarrow> error + nat" where
  "e_shoff W bin = (if W = 4 then read_le bin 32 4 else read_le bin 40 8)"

definition e_shnum :: "nat \<Rightarrow> raw_image \<Rightarrow> error + nat" where
  "e_shnum W bin = (if W = 4 then read_le bin 48 2 else read_le bin 60 2)"

definition e_shstrndx :: "nat \<Rightarrow> raw_image \<Rightarrow> error + nat" where
  "e_shstrndx W bin = (if W = 4 then read_le bin 50 2 else read_le bin 62 2)"

text \<open>
  The fields of the section header at the pointer \<open>p\<close>.  The pointers to section headers
  are \<^verbatim>\<open>&shdr[i]\<close> with a 16-bit index \<open>i\<close>, taken after the guard on \<^verbatim>\<open>e_shoff\<close>: they
  are kept as plain sums, which lie below \<open>length bin + 2 ^ 22\<close> and do not wrap for an
  image that ends more than 4 MiB below the top of the address space.
\<close>

definition sh_name :: "nat \<Rightarrow> raw_image \<Rightarrow> nat \<Rightarrow> error + nat" where
  "sh_name W bin p = read_le bin p 4"

definition sh_offset :: "nat \<Rightarrow> raw_image \<Rightarrow> nat \<Rightarrow> error + nat" where
  "sh_offset W bin p = (if W = 4 then read_le bin (p + 16) 4 else read_le bin (p + 24) 8)"

definition sh_size :: "nat \<Rightarrow> raw_image \<Rightarrow> nat \<Rightarrow> error + nat" where
  "sh_size W bin p = (if W = 4 then read_le bin (p + 20) 4 else read_le bin (p + 32) 8)"

text \<open>
  The fields of the symbol at the pointer \<open>p\<close>, and below of the relocation entry at the
  pointer \<open>p\<close>.  These pointers are sums with an unchecked \<^verbatim>\<open>sh_offset\<close>.
\<close>

definition st_name :: "nat \<Rightarrow> raw_image \<Rightarrow> nat \<Rightarrow> error + nat" where
  "st_name W bin p = read_le bin p 4"

definition st_info :: "nat \<Rightarrow> raw_image \<Rightarrow> nat \<Rightarrow> error + nat" where
  "st_info W bin p =
     (if W = 4 then read_le bin (ptr_add p 12) 1 else read_le bin (ptr_add p 4) 1)"

definition st_value :: "nat \<Rightarrow> raw_image \<Rightarrow> nat \<Rightarrow> error + nat" where
  "st_value W bin p =
     (if W = 4 then read_le bin (ptr_add p 4) 4 else read_le bin (ptr_add p 8) 8)"

definition r_offset :: "nat \<Rightarrow> raw_image \<Rightarrow> nat \<Rightarrow> error + nat" where
  "r_offset W bin p = (if W = 4 then read_le bin p 4 else read_le bin p 8)"

definition r_info :: "nat \<Rightarrow> raw_image \<Rightarrow> nat \<Rightarrow> error + nat" where
  "r_info W bin p =
     (if W = 4 then read_le bin (ptr_add p 4) 4 else read_le bin (ptr_add p 8) 8)"

section \<open>The C string functions the loader calls\<close>

text \<open>
  The first argument is the memory from the pointer to the end of its buffer.
  \<^verbatim>\<open>strnlen(s, n)\<close> looks at no more than \<open>n\<close> bytes; \<^verbatim>\<open>strncmp(s1, s2, n)\<close> compares
  no more than \<open>n\<close> bytes and stops after a common NUL; \<^verbatim>\<open>strlen\<close> reads up to the NUL.
\<close>

fun strnlen :: "string \<Rightarrow> nat \<Rightarrow> error + nat" where
  "strnlen [] n = (if n = 0 then Inr 0 else Inl OUT_OF_BOUNDS_READ)"
| "strnlen (c # cs) n =
     (if n = 0 then Inr 0
      else if c = NUL then Inr 0
      else then_do (strnlen cs (n - 1)) (\<lambda>l. Inr (Suc l)))"

fun strncmp :: "string \<Rightarrow> string \<Rightarrow> nat \<Rightarrow> error + int" where
  "strncmp (c1 # s1) (c2 # s2) n =
     (if n = 0 then Inr 0
      else if c1 \<noteq> c2 then Inr (int (of_char c1) - int (of_char c2))
      else if c1 = NUL then Inr 0
      else strncmp s1 s2 (n - 1))"
| "strncmp s1 s2 n = (if n = 0 then Inr 0 else Inl OUT_OF_BOUNDS_READ)"

fun strlen :: "string \<Rightarrow> error + nat" where
  "strlen [] = Inl OUT_OF_BOUNDS_READ"
| "strlen (c # cs) = (if c = NUL then Inr 0 else then_do (strlen cs) (\<lambda>l. Inr (Suc l)))"

text \<open>\<^verbatim>\<open>name.c_str()\<close>: the characters of the \<^verbatim>\<open>std::string\<close>, then a NUL.\<close>

definition c_str :: "string \<Rightarrow> string" where
  "c_str name = name @ [NUL]"

section \<open>AddressResolver\<close>

text \<open>
  \<^verbatim>\<open>address_t\<close> is an unsigned integer of \<open>W\<close> bytes: its values are the numbers below
  \<open>2 ^ (8 * W)\<close>, and its arithmetic is modulo \<open>2 ^ (8 * W)\<close>.  \<^verbatim>\<open>DYLINK_BASE\<close> is a
  constant declared outside this development and is a parameter here.
\<close>

definition addr_mod :: "nat \<Rightarrow> nat" where
  "addr_mod W = 2 ^ (8 * W)"

definition elf_base_address :: "nat \<Rightarrow> nat \<Rightarrow> bool \<Rightarrow> nat \<Rightarrow> error + nat" where
  "elf_base_address W DYLINK_BASE m_is_dynamic offset =
     (if m_is_dynamic then
        (let vaddr_base = DYLINK_BASE in
         if (vaddr_base + offset) mod addr_mod W < vaddr_base then Inl INVALID_PROGRAM
         else Inr ((vaddr_base + offset) mod addr_mod W))
      else Inr offset)"

section \<open>SectionTable\<close>

text \<open>
  Modelled from the spec: \<^verbatim>\<open>elf_offset<T>(ofs)\<close> is declared outside this development.
  The spec describes no check of its own: it is the pointer \<^verbatim>\<open>m_binary.data() + ofs\<close>,
  typed as a \<^verbatim>\<open>T*\<close>.
\<close>

definition elf_offset :: "nat \<Rightarrow> nat" where
  "elf_offset ofs = ofs"

text \<open>
  \<^verbatim>\<open>section_by_name\<close> returns a pointer to a section header or \<^verbatim>\<open>nullptr\<close>: here the
  offset of the header in the image, or \<open>None\<close>.  \<^verbatim>\<open>m_binary.size() - sizeof(...)\<close> is
  arithmetic of \<^verbatim>\<open>size_t\<close> (64 bits on the hosts the library is built for) and wraps.
  The pointers to section headers do not wrap, and their comparisons with \<^verbatim>\<open>endptr\<close> are
  comparisons of offsets.  The name pointer \<^verbatim>\<open>&strings[shdr[i].sh_name]\<close> is a sum with the
  unchecked \<^verbatim>\<open>sh_offset\<close> of the section name strings: it wraps, and it can lie before
  the image as well as behind it, so that \<^verbatim>\<open>shname >= endptr\<close> is a comparison of
  addresses.  \<open>data\<close> is \<^verbatim>\<open>m_binary.data()\<close>.
\<close>

definition size_t_mod :: nat where
  "size_t_mod = 2 ^ 64"

fun scan_section_names ::
  "nat \<Rightarrow> nat \<Rightarrow> raw_image \<Rightarrow> string \<Rightarrow> nat \<Rightarrow> nat \<Rightarrow> nat list \<Rightarrow> error + nat option" where
  "scan_section_names W data bin name shdr strings [] = Inr None"
| "scan_section_names W data bin name shdr strings (i # rest) =
     then_do (sh_name W bin (shdr + i * sizeof_Shdr W)) (\<lambda>nm.
       let shname = ptr_add strings nm in
       if address data shname \<ge> address data (length bin) then Inl INVALID_PROGRAM
       else
         then_do (strnlen (drop shname bin) (ptr_diff (length bin) shname)) (\<lambda>len.
           if len \<noteq> length name then scan_section_names W data bin name shdr strings rest
           else
             then_do (strncmp (drop shname bin) (c_str name) len) (\<lambda>cmp.
               if cmp = 0 then Inr (Some (shdr + i * sizeof_Shdr W))
               else scan_section_names W data bin name shdr strings rest)))"

definition section_by_name ::
  "nat \<Rightarrow> nat \<Rightarrow> raw_image \<Rightarrow> string \<Rightarrow> error + nat option" where
  "section_by_name W data bin name =
     then_do (e_shoff W bin) (\<lambda>shoff.
       if shoff > (length bin + size_t_mod - sizeof_Shdr W) mod size_t_mod
       then Inl INVALID_PROGRAM
       else
         let shdr = elf_offset shoff in
         then_do (e_shstrndx W bin) (\<lambda>shstrndx.
           let shstrtab = shdr + shstrndx * sizeof_Shdr W in
           if int shstrtab > int (length bin) - int (sizeof_Shdr W)
           then Inl INVALID_PROGRAM
           else
             then_do (sh_offset W bin shstrtab) (\<lambda>ofs.
               let strings = elf_offset ofs in
               then_do (e_shnum W bin) (\<lambda>shnum.
                 if shdr + shnum * sizeof_Shdr W > length bin
                 then Inl INVALID_PROGRAM
                 else scan_section_names W data bin name shdr strings [0..<shnum]))))"

section \<open>SymbolResolver\<close>

text \<open>
  Modelled from the spec: \<^verbatim>\<open>elf_sym_index(shdr, idx)\<close> is declared outside this
  development.  The spec describes no check of its own: it indexes the content of the
  symbol section with no further validation.
\<close>

definition elf_sym_index :: "nat \<Rightarrow> raw_image \<Rightarrow> nat \<Rightarrow> nat \<Rightarrow> error + nat" where
  "elf_sym_index W bin shdr symidx =
     then_do (sh_offset W bin shdr) (\<lambda>ofs.
       Inr (ptr_add (elf_offset ofs) (symidx * sizeof_Sym W)))"

text \<open>
  \<^verbatim>\<open>name.compare(symname)\<close> with a \<^verbatim>\<open>const char*\<close> argument: the argument's length is
  found by \<^verbatim>\<open>strlen\<close>, then the two character sequences are compared; the result is
  negative, zero or positive.
\<close>

fun compare_chars :: "string \<Rightarrow> string \<Rightarrow> int" where
  "compare_chars [] [] = 0"
| "compare_chars [] (y # ys) = - 1"
| "compare_chars (x # xs) [] = 1"
| "compare_chars (x # xs) (y # ys) =
     (if x = y then compare_chars xs ys
      else if (of_char x :: nat) < of_char y then - 1 else 1)"

definition compare :: "string \<Rightarrow> string \<Rightarrow> error + int" where
  "compare name s = then_do (strlen s) (\<lambda>l. Inr (compare_chars name (take l s)))"

fun scan_symbols ::
  "nat \<Rightarrow> raw_image \<Rightarrow> string \<Rightarrow> nat \<Rightarrow> nat \<Rightarrow> nat list \<Rightarrow> error + nat option" where
  "scan_symbols W bin name symtab strtab [] = Inr None"
| "scan_symbols W bin name symtab strtab (i # rest) =
     then_do (st_name W bin (ptr_add symtab (i * sizeof_Sym W))) (\<lambda>nm.
       let symname = ptr_add strtab nm in
       then_do (compare name (drop symname bin)) (\<lambda>cmp.
         if cmp = 0 then Inr (Some (ptr_add symtab (i * sizeof_Sym W)))
         else scan_symbols W bin name symtab strtab rest))"

definition resolve_symbol ::
  "nat \<Rightarrow> nat \<Rightarrow> raw_image \<Rightarrow> string \<Rightarrow> error + nat option" where
  "resolve_symbol W data bin name =
     (if bin = [] then Inr None
      else
        then_do (section_by_name W data bin ''.symtab'') (\<lambda>sym_hdr.
          case sym_hdr of
            None \<Rightarrow> Inr None
          | Some sym_hdr \<Rightarrow>
              then_do (section_by_name W data bin ''.strtab'') (\<lambda>str_hdr.
                case str_hdr of
                  None \<Rightarrow> Inr None
                | Some str_hdr \<Rightarrow>
                    then_do (sh_size W bin sym_hdr) (\<lambda>size.
                      if size = 0 then Inr None
                      else
                        then_do (elf_sym_index W bin sym_hdr 0) (\<lambda>symtab.
                          let symtab_ents = size div sizeof_Sym W in
                          then_do (sh_offset W bin str_hdr) (\<lambda>ofs.
                            let strtab = elf_offset ofs in
                            scan_symbols W bin name symtab strtab [0..<symtab_ents]))))))"

section \<open>RelocationEngine\<close>

text \<open>
  Modelled from the spec: \<^verbatim>\<open>Elf::RelaSym\<close>, \<^verbatim>\<open>Elf::SymbolType\<close>, \<^verbatim>\<open>STT_FUNC\<close> and
  \<^verbatim>\<open>STT_OBJECT\<close> are declared outside this development; they are the standard ELF
  ones: the symbol index is the high part of \<^verbatim>\<open>r_info\<close>, the type is the low four bits
  of \<^verbatim>\<open>st_info\<close>.
\<close>

definition RelaSym :: "nat \<Rightarrow> nat \<Rightarrow> nat" where
  "RelaSym W info = (if W = 4 then info div 2 ^ 8 else info div 2 ^ 32)"

definition SymbolType :: "nat \<Rightarrow> nat" where
  "SymbolType info = info mod 16"

definition STT_OBJECT :: nat where
  "STT_OBJECT = 1"

definition STT_FUNC :: nat where
  "STT_FUNC = 2"

text \<open>
  The state of a \<^verbatim>\<open>Memory<W>\<close>: the image (the bytes of \<^verbatim>\<open>m_binary\<close> and its address
  \<^verbatim>\<open>m_binary.data()\<close>), the linkage mode, and the bytes of the guest memory by address.
\<close>

record Memory =
  m_binary :: raw_image
  m_binary_data :: nat
  m_is_dynamic :: bool
  m_pages :: "nat \<Rightarrow> char"

text \<open>
  Modelled from the spec: \<^verbatim>\<open>write<address_t>(addr, value)\<close> belongs to the memory
  subsystem, outside this development.  \<open>write_addr\<close> stores the \<open>W\<close> bytes of the value
  at the address, least significant byte first, and \<open>read_addr\<close> reads an \<^verbatim>\<open>address_t\<close>
  back.  The checks of the memory subsystem itself are not modelled: every address of the
  guest can be written.
\<close>

definition write_bytes :: "nat \<Rightarrow> (nat \<Rightarrow> char) \<Rightarrow> nat \<Rightarrow> nat \<Rightarrow> (nat \<Rightarrow> char)" where
  "write_bytes W pages addr val =
     fold (\<lambda>i pg. pg(addr + i := char_of (val div 256 ^ i))) [0..<W] pages"

definition write_addr :: "nat \<Rightarrow> Memory \<Rightarrow> nat \<Rightarrow> nat \<Rightarrow> Memory" where
  "write_addr W mem addr val = mem\<lparr>m_pages := write_bytes W (m_pages mem) addr val\<rparr>"

definition read_addr :: "nat \<Rightarrow> Memory \<Rightarrow> nat \<Rightarrow> nat" where
  "read_addr W mem addr = le_nat (map (\<lambda>i. m_pages mem (addr + i)) [0..<W])"

text \<open>
  One iteration of the loop of \<^verbatim>\<open>relocate_section\<close>, for the entry \<open>i\<close>.  C++ leaves the
  order open in which the two arguments of \<^verbatim>\<open>write\<close> are evaluated; here the address comes
  first.
\<close>

definition relocate_entry ::
  "nat \<Rightarrow> nat \<Rightarrow> nat \<Rightarrow> nat \<Rightarrow> nat \<Rightarrow> Memory \<Rightarrow> error + Memory" where
  "relocate_entry W DYLINK_BASE rela_addr dyn_hdr i mem =
     (let bin = m_binary mem; entry = ptr_add rela_addr (i * sizeof_Rela W) in
      then_do (r_info W bin entry) (\<lambda>info.
        let symidx = RelaSym W info in
        then_do (elf_sym_index W bin dyn_hdr symidx) (\<lambda>sym.
          then_do (st_info W bin sym) (\<lambda>sinfo.
            let type = SymbolType sinfo in
            if type = STT_FUNC \<or> type = STT_OBJECT then
              then_do (r_offset W bin entry) (\<lambda>ofs.
                then_do (elf_base_address W DYLINK_BASE (m_is_dynamic mem) ofs) (\<lambda>addr.
                  then_do (st_value W bin sym) (\<lambda>val.
                    Inr (write_addr W mem addr val))))
            else Inr mem))))"

fun relocate_entries ::
  "nat \<Rightarrow> nat \<Rightarrow> nat \<Rightarrow> nat \<Rightarrow> nat list \<Rightarrow> Memory \<Rightarrow> error + Memory" where
  "relocate_entries W DYLINK_BASE rela_addr dyn_hdr [] mem = Inr mem"
| "relocate_entries W DYLINK_BASE rela_addr dyn_hdr (i # rest) mem =
     then_do (relocate_entry W DYLINK_BASE rela_addr dyn_hdr i mem)
       (relocate_entries W DYLINK_BASE rela_addr dyn_hdr rest)"

definition relocate_section ::
  "nat \<Rightarrow> nat \<Rightarrow> Memory \<Rightarrow> string \<Rightarrow> string \<Rightarrow> error + Memory" where
  "relocate_section W DYLINK_BASE mem section_name sym_section =
     then_do (section_by_name W (m_binary_data mem) (m_binary mem) section_name) (\<lambda>rela.
       case rela of
         None \<Rightarrow> Inr mem
       | Some rela \<Rightarrow>
           then_do (section_by_name W (m_binary_data mem) (m_binary mem) sym_section) (\<lambda>dyn_hdr.
             case dyn_hdr of
               None \<Rightarrow> Inr mem
             | Some dyn_hdr \<Rightarrow>
                 then_do (sh_size W (m_binary mem) rela) (\<lambda>size.
                   let rela_ents = size div sizeof_Rela W in
                   then_do (sh_offset W (m_binary mem) rela) (\<lambda>ofs.
                     let rela_addr = elf_offset ofs in
                     relocate_entries W DYLINK_BASE rela_addr dyn_hdr [0..<rela_ents] mem))))"

text \<open>
  The argument of \<^verbatim>\<open>dynamic_linking\<close> is a \<^verbatim>\<open>const Elf::Header&\<close>; the fields the loader
  uses are enough.
\<close>

record Header =
  hdr_e_shoff :: nat
  hdr_e_shnum :: nat
  hdr_e_shstrndx :: nat

definition dynamic_linking :: "nat \<Rightarrow> nat \<Rightarrow> Memory \<Rightarrow> Header \<Rightarrow> error + Memory" where
  "dynamic_linking W DYLINK_BASE mem hdr =
     then_do (relocate_section W DYLINK_BASE mem ''.rela.dyn'' ''.dynsym'')
       (\<lambda>mem'. relocate_section W DYLINK_BASE mem' ''.rela.plt'' ''.dynsym'')"

section \<open>The register file\<close>

text \<open>
  \<^verbatim>\<open>m_reg\<close> is a \<^verbatim>\<open>std::array<register_t, 32>\<close>: a list whose length is 32 by its type.
  \<^verbatim>\<open>at\<close> is \<^verbatim>\<open>std::array::at\<close>, which throws \<^verbatim>\<open>std::out_of_range\<close> for an index that
  is not below 32; \<^verbatim>\<open>get\<close> is \<^verbatim>\<open>operator[]\<close>, which checks nothing, so that an index
  that is not below 32 leaves the array (\<open>UNCHECKED_INDEX\<close>: undefined behaviour, not an
  exception).  Each function returns its outcome and the register file after the call.
  The non-const overloads return a reference; \<open>at_store\<close> and \<open>get_store\<close> are the
  assignments \<^verbatim>\<open>regs.at(idx) = v\<close> and \<^verbatim>\<open>regs.get(idx) = v\<close> through it.
\<close>

typedef 'r reg_array = "{xs :: 'r list. length xs = 32}"
  morphisms regs_of Abs_reg_array
  by (rule exI [of _ "replicate 32 undefined"]) simp

datatype access_error = OUT_OF_RANGE | UNCHECKED_INDEX

record 'r Registers =
  counter :: nat
  pc :: 'r
  m_reg :: "'r reg_array"

definition get :: "'r Registers \<Rightarrow> nat \<Rightarrow> (access_error + 'r) \<times> 'r Registers" where
  "get regs idx =
     (if idx < 32 then Inr (regs_of (m_reg regs) ! idx) else Inl UNCHECKED_INDEX, regs)"

definition at :: "'r Registers \<Rightarrow> nat \<Rightarrow> (access_error + 'r) \<times> 'r Registers" where
  "at regs idx =
     (if idx < 32 then Inr (regs_of (m_reg regs) ! idx) else Inl OUT_OF_RANGE, regs)"

definition get_store ::
  "'r Registers \<Rightarrow> nat \<Rightarrow> 'r \<Rightarrow> (access_error + unit) \<times> 'r Registers" where
  "get_store regs idx v =
     (if idx < 32
      then (Inr (), regs\<lparr>m_reg := Abs_reg_array ((regs_of (m_reg regs))[idx := v])\<rparr>)
      else (Inl UNCHECKED_INDEX, regs))"

definition at_store ::
  "'r Registers \<Rightarrow> nat \<Rightarrow> 'r \<Rightarrow> (access_error + unit) \<times> 'r Registers" where
  "at_store regs idx v =
     (if idx < 32
      then (Inr (), regs\<lparr>m_reg := Abs_reg_array ((regs_of (m_reg regs))[idx := v])\<rparr>)
      else (Inl OUT_OF_RANGE, regs))"

section \<open>Notions the properties are stated with\<close>

text \<open>
  The name string the scan recovers at the pointer \<open>p\<close>: the bytes from \<open>p\<close> up to the
  first NUL, or up to the end of the image when there is none.
\<close>

definition name_at :: "raw_image \<Rightarrow> nat \<Rightarrow> string" where
  "name_at bin p = takeWhile (\<lambda>c. c \<noteq> NUL) (drop p bin)"

text \<open>
  The checks \<^verbatim>\<open>section_by_name\<close> makes before its loop, on their own: the offset of the
  section header array, the offset of the section name strings, and \<^verbatim>\<open>e_shnum\<close>.
\<close>

definition section_table :: "nat \<Rightarrow> raw_image \<Rightarrow> error + nat \<times> nat \<times> nat" where
  "section_table W bin =
     then_do (e_shoff W bin) (\<lambda>shoff.
       if shoff > (length bin + size_t_mod - sizeof_Shdr W) mod size_t_mod
       then Inl INVALID_PROGRAM
       else
         then_do (e_shstrndx W bin) (\<lambda>shstrndx.
           if int (shoff + shstrndx * sizeof_Shdr W) > int (length bin) - int (sizeof_Shdr W)
           then Inl INVALID_PROGRAM
           else
             then_do (sh_offset W bin (shoff + shstrndx * sizeof_Shdr W)) (\<lambda>strings.
               then_do (e_shnum W bin) (\<lambda>shnum.
                 if shoff + shnum * sizeof_Shdr W > length bin
                 then Inl INVALID_PROGRAM
                 else Inr (shoff, strings, shnum)))))"

text \<open>The pointer \<^verbatim>\<open>&shdr[i]\<close>, and the name string of the section \<open>i\<close>.\<close>

definition section_header :: "nat \<Rightarrow> raw_image \<Rightarrow> nat \<Rightarrow> error + nat" where
  "section_header W bin i = then_do (e_shoff W bin) (\<lambda>shoff. Inr (shoff + i * sizeof_Shdr W))"

definition section_name :: "nat \<Rightarrow> raw_image \<Rightarrow> nat \<Rightarrow> error + string" where
  "section_name W bin i =
     then_do (e_shoff W bin) (\<lambda>shoff.
       then_do (e_shstrndx W bin) (\<lambda>shstrndx.
         then_do (sh_offset W bin (shoff + shstrndx * sizeof_Shdr W)) (\<lambda>strings.
           then_do (sh_name W bin (shoff + i * sizeof_Shdr W)) (\<lambda>nm.
             Inr (name_at bin (ptr_add strings nm))))))"

text \<open>
  A well-formed image: its size is a \<^verbatim>\<open>size_t\<close>, it lies in the address space of the
  host (its end has an address), the section header array and the header of the section
  name strings lie inside the image, and every section name starts inside the image.
\<close>

definition names_inside :: "nat \<Rightarrow> raw_image \<Rightarrow> nat \<Rightarrow> nat \<Rightarrow> nat \<Rightarrow> bool" where
  "names_inside W bin shoff strings shnum =
     list_all
       (\<lambda>i. case sh_name W bin (shoff + i * sizeof_Shdr W) of
               Inl e \<Rightarrow> False
             | Inr nm \<Rightarrow> strings + nm < length bin)
       [0..<shnum]"

definition well_formed :: "nat \<Rightarrow> nat \<Rightarrow> raw_image \<Rightarrow> bool" where
  "well_formed W data bin =
     (length bin < size_t_mod \<and> data + length bin < ptr_mod \<and>
      (case (e_shoff W bin, e_shstrndx W bin, e_shnum W bin) of
         (Inr shoff, Inr shstrndx, Inr shnum) \<Rightarrow>
           shoff + sizeof_Shdr W \<le> length bin \<and>
           shoff + (shstrndx + 1) * sizeof_Shdr W \<le> length bin \<and>
           shoff + shnum * sizeof_Shdr W \<le> length bin \<and>
           (case sh_offset W bin (shoff + shstrndx * sizeof_Shdr W) of
              Inl e \<Rightarrow> False
            | Inr strings \<Rightarrow> names_inside W bin shoff strings shnum)
       | _ \<Rightarrow> False))"

text \<open>
  The reads of the scan of \<open>resolve_symbol\<close> stay inside the image: the \<^verbatim>\<open>st_name\<close> of each
  of the \<open>n\<close> symbols can be read, and the name it points to has its NUL inside the image.
\<close>

definition symbols_inside :: "nat \<Rightarrow> raw_image \<Rightarrow> nat \<Rightarrow> nat \<Rightarrow> nat \<Rightarrow> bool" where
  "symbols_inside W bin symtab strtab n =
     list_all
       (\<lambda>i. case st_name W bin (ptr_add symtab (i * sizeof_Sym W)) of
               Inl e \<Rightarrow> False
             | Inr nm \<Rightarrow> NUL \<in> set (drop (ptr_add strtab nm) bin))
       [0..<n]"

section \<open>Images for the examples\<close>

text \<open>Builders of 32-bit and 64-bit ELF structures, least significant byte first.\<close>

definition le_bytes :: "nat \<Rightarrow> nat \<Rightarrow> string" where
  "le_bytes n v = map (\<lambda>i. char_of (v div 256 ^ i)) [0..<n]"

definition zeros :: "nat \<Rightarrow> string" where
  "zeros n = replicate n NUL"

definition ehdr32 :: "nat \<Rightarrow> nat \<Rightarrow> nat \<Rightarrow> string" where
  "ehdr32 shoff shnum shstrndx =
     zeros 32 @ le_bytes 4 shoff @ zeros 12 @ le_bytes 2 shnum @ le_bytes 2 shstrndx"

definition shdr32 :: "nat \<Rightarrow> nat \<Rightarrow> nat \<Rightarrow> string" where
  "shdr32 nm ofs sz = le_bytes 4 nm @ zeros 12 @ le_bytes 4 ofs @ le_bytes 4 sz @ zeros 16"

definition sym32 :: "nat \<Rightarrow> nat \<Rightarrow> nat \<Rightarrow> string" where
  "sym32 nm val info = le_bytes 4 nm @ le_bytes 4 val @ zeros 4 @ le_bytes 1 info @ zeros 3"

definition rela32 :: "nat \<Rightarrow> nat \<Rightarrow> string" where
  "rela32 ofs info = le_bytes 4 ofs @ le_bytes 4 info @ zeros 4"

definition ehdr64 :: "nat \<Rightarrow> nat \<Rightarrow> nat \<Rightarrow> string" where
  "ehdr64 shoff shnum shstrndx =
     zeros 40 @ le_bytes 8 shoff @ zeros 12 @ le_bytes 2 shnum @ le_bytes 2 shstrndx"

definition shdr64 :: "nat \<Rightarrow> nat \<Rightarrow> nat \<Rightarrow> string" where
  "shdr64 nm ofs sz = le_bytes 4 nm @ zeros 20 @ le_bytes 8 ofs @ le_bytes 8 sz @ zeros 24"

text \<open>
  The address of the image in the examples, and the state of an empty
  \<^verbatim>\<open>std::string_view\<close>: no bytes, at the null pointer.
\<close>

definition image_data :: nat where
  "image_data = 0x10000"

definition nullptr :: nat where
  "nullptr = 0"

text \<open>
  A dynamically linked 32-bit image of 285 bytes: the ELF header, the section name strings
  (offset 52), one relocation entry (offset 81) with \<^verbatim>\<open>r_offset = 0x1000\<close> and the given
  \<^verbatim>\<open>r_info\<close>, two symbols (offset 93), the first the null symbol of type \<^verbatim>\<open>NOTYPE\<close>,
  the second an \<^verbatim>\<open>OBJECT\<close> with \<^verbatim>\<open>st_value = 0xAAAA\<close>, and four section headers
  (offset 125): the null section, \<^verbatim>\<open>.shstrtab\<close>, \<^verbatim>\<open>.rela.dyn\<close> and \<^verbatim>\<open>.dynsym\<close>.
  In \<open>image_dyn\<close> the relocation entry refers to the symbol 1, in \<open>image_notype\<close> to the
  symbol 0.
\<close>

definition image_rela :: "nat \<Rightarrow> raw_image" where
  "image_rela info =
     ehdr32 125 4 1
     @ [NUL] @ ''.shstrtab'' @ [NUL] @ ''.rela.dyn'' @ [NUL] @ ''.dynsym'' @ [NUL]
     @ rela32 0x1000 info
     @ sym32 0 0 0 @ sym32 0 0xAAAA 0x11
     @ shdr32 0 0 0 @ shdr32 1 52 29 @ shdr32 11 81 12 @ shdr32 21 93 32"

definition image_dyn :: raw_image where
  "image_dyn = image_rela (1 * 256 + 1)"

definition image_notype :: raw_image where
  "image_notype = image_rela (0 * 256 + 1)"

text \<open>
  A 32-bit and a 64-bit ELF header alone (52 and 64 bytes), with an \<^verbatim>\<open>e_shoff\<close> of 16 and
  of 8: each image is longer than one section header (40 and 64 bytes), and has no room
  for one at its \<^verbatim>\<open>e_shoff\<close>.
\<close>

definition image_header :: raw_image where
  "image_header = ehdr32 16 1 0"

definition image_header64 :: raw_image where
  "image_header64 = ehdr64 8 1 0"

text \<open>The first 38 bytes of \<open>image_header\<close>: an image shorter than one section header.\<close>

definition image_short :: raw_image where
  "image_short = take 38 image_header"

text \<open>
  Images of three sections whose name strings are the last bytes of the image (offset 172):
  the null section, \<^verbatim>\<open>.shstrtab\<close>, and a section whose \<^verbatim>\<open>sh_name\<close> is given.  The
  strings end with the bytes \<^verbatim>\<open>.tail\<close> at the string offset 11.  \<open>image_tail\<close> (188 bytes)
  ends there, with no NUL after them; \<open>image_tail_nul\<close> (189 bytes) has the terminating
  NUL as its last byte; in \<open>image_past\<close> the name pointer of the third section is the end
  of the image.
\<close>

definition image_names :: "nat \<Rightarrow> raw_image" where
  "image_names nm =
     ehdr32 52 3 1
     @ shdr32 0 0 0 @ shdr32 1 172 16 @ shdr32 nm 0 0
     @ [NUL] @ ''.shstrtab'' @ [NUL] @ ''.tail''"

definition image_tail :: raw_image where
  "image_tail = image_names 11"

definition image_tail_nul :: raw_image where
  "image_tail_nul = image_names 11 @ [NUL]"

definition image_past :: raw_image where
  "image_past = image_names 16"

text \<open>
  A 64-bit image of 203 bytes with two sections.  The \<^verbatim>\<open>sh_offset\<close> of its section name
  strings is \<open>2 ^ 64 - 16\<close>, so that \<^verbatim>\<open>strings\<close> points 16 bytes before the image; the
  \<^verbatim>\<open>sh_name\<close> of the two sections, 208 and 209, bring the name pointers back into the
  image, to the offsets 192 (the empty string) and 193 (the string \<^verbatim>\<open>.shstrtab\<close>).
\<close>

definition image_wrap :: raw_image where
  "image_wrap =
     ehdr64 64 2 1
     @ shdr64 208 0 0 @ shdr64 209 (2 ^ 64 - 16) 11
     @ [NUL] @ ''.shstrtab'' @ [NUL]"

text \<open>
  Images of 276 bytes with a symbol table: the null section, \<^verbatim>\<open>.shstrtab\<close> (offset 212),
  \<^verbatim>\<open>.symtab\<close> (offset 244) with the given size, a fourth section with the given
  \<^verbatim>\<open>sh_name\<close> (19 is \<^verbatim>\<open>.strtab\<close>) whose content is the strings \<^verbatim>\<open>""\<close> and \<^verbatim>\<open>"foo"\<close>
  (offset 239), and two symbols, the second with the given \<^verbatim>\<open>st_name\<close> (1 is \<^verbatim>\<open>foo\<close>).
  In \<open>image_no_strtab\<close> the fourth section has the empty name; in \<open>image_bad_name\<close> its
  name pointer lies outside the image; in \<open>image_sym_outside\<close> the \<^verbatim>\<open>st_name\<close> of the
  second symbol points outside the image.
\<close>

definition image_symbols :: "nat \<Rightarrow> nat \<Rightarrow> nat \<Rightarrow> raw_image" where
  "image_symbols symtab_size nm stname =
     ehdr32 52 4 1
     @ shdr32 0 0 0 @ shdr32 1 212 27 @ shdr32 11 244 symtab_size @ shdr32 nm 239 5
     @ [NUL] @ ''.shstrtab'' @ [NUL] @ ''.symtab'' @ [NUL] @ ''.strtab'' @ [NUL]
     @ [NUL] @ ''foo'' @ [NUL]
     @ sym32 0 0 0 @ sym32 stname 0x2000 0x12"

definition image_sym :: raw_image where
  "image_sym = image_symbols 32 19 1"

definition image_sym_empty :: raw_image where
  "image_sym_empty = image_symbols 0 19 1"

definition image_sym_outside :: raw_image where
  "image_sym_outside = image_symbols 32 19 0x10000"

definition image_no_strtab :: raw_image where
  "image_no_strtab = image_symbols 32 0 1"

definition image_bad_name :: raw_image where
  "image_bad_name = image_symbols 0 0xFFFF 1"

text \<open>
  The state of a \<^verbatim>\<open>Memory<4>\<close> that holds one of these images at the address
  \<open>image_data\<close>, dynamically linked, with a guest memory of zero bytes.
\<close>

definition memory_of :: "raw_image \<Rightarrow> Memory" where
  "memory_of bin =
     \<lparr>m_binary = bin, m_binary_data = image_data, m_is_dynamic = True, m_pages = (\<lambda>a. NUL)\<rparr>"

text \<open>A register file of zeros.\<close>

definition zero_registers :: "nat Registers" where
  "zero_registers = \<lparr>counter = 0, pc = 0, m_reg = Abs_reg_array (replicate 32 0)\<rparr>"

section \<open>The string functions on the bytes of the image\<close>

lemma elf_offset_id [simp]: "elf_offset ofs = ofs"
  by (simp add: elf_offset_def)

lemma strnlen_whole: "strnlen s (length s) = Inr (length (takeWhile (\<lambda>c. c \<noteq> NUL) s))"
  by (induction s) simp_all

lemma strncmp_prefix:
  "length name = length (takeWhile (\<lambda>c. c \<noteq> NUL) s) \<Longrightarrow>
   \<exists>r. strncmp s (name @ [NUL]) (length name) = Inr r \<and>
       (r = 0 \<longleftrightarrow> takeWhile (\<lambda>c. c \<noteq> NUL) s = name)"
proof (induction s arbitrary: name)
  case Nil
  then show ?case by simp
next
  case (Cons c cs)
  show ?case
  proof (cases "c = NUL")
    case True
    with Cons.prems show ?thesis by simp
  next
    case False
    with Cons.prems obtain d name' where name: "name = d # name'"
      and len: "length name' = length (takeWhile (\<lambda>c. c \<noteq> NUL) cs)"
      by (cases name) auto
    from Cons.IH [OF len] False show ?thesis
      by (auto simp: name)
  qed
qed

section \<open>Pointer arithmetic\<close>

lemma ptr_add_less: "ptr_add p k < ptr_mod"
  by (simp add: ptr_add_def ptr_mod_def)

lemma ptr_add_inside: "p + k < ptr_mod \<Longrightarrow> ptr_add p k = p + k"
  by (simp add: ptr_add_def)

lemma ptr_add_0: "p < ptr_mod \<Longrightarrow> ptr_add p 0 = p"
  by (simp add: ptr_add_def)

lemma address_inside: "data + p < ptr_mod \<Longrightarrow> address data p = data + p"
  by (simp add: address_def)

lemma address_le: "address data p \<le> data + p"
  by (simp add: address_def)

lemma address_wrapped:
  assumes "ptr_mod \<le> data + p" and "data < ptr_mod" and "p < ptr_mod"
  shows "address data p = data + p - ptr_mod"
proof -
  from assms have "data + p - ptr_mod < ptr_mod" by arith
  then have "(data + p - ptr_mod) mod ptr_mod = data + p - ptr_mod"
    by (rule mod_less)
  moreover from assms(1) have "(data + p) mod ptr_mod = (data + p - ptr_mod) mod ptr_mod"
    by (rule le_mod_geq)
  ultimately show ?thesis by (simp add: address_def)
qed

section \<open>One candidate of the scan of section names\<close>

lemma scan_step_read_fails:
  "sh_name W bin (shdr + i * sizeof_Shdr W) = Inl e \<Longrightarrow>
   scan_section_names W data bin name shdr strings (i # rest) = Inl e"
  by simp

lemma scan_step:
  assumes nm: "sh_name W bin (shdr + i * sizeof_Shdr W) = Inr nm"
  shows "scan_section_names W data bin name shdr strings (i # rest) =
     (if address data (length bin) \<le> address data (ptr_add strings nm) then Inl INVALID_PROGRAM
      else if length bin < ptr_add strings nm then Inl OUT_OF_BOUNDS_READ
      else if name_at bin (ptr_add strings nm) = name
        then Inr (Some (shdr + i * sizeof_Shdr W))
      else scan_section_names W data bin name shdr strings rest)"
proof -
  let ?p = "ptr_add strings nm"
  let ?s = "drop ?p bin"
  show ?thesis
  proof (cases "address data (length bin) \<le> address data ?p")
    case True
    with nm show ?thesis by simp
  next
    case check: False
    show ?thesis
    proof (cases "length bin < ?p")
      case True
      with ptr_add_less [of strings nm] have "ptr_diff (length bin) ?p \<noteq> 0"
        by (simp add: ptr_diff_def)
      with True have "strnlen ?s (ptr_diff (length bin) ?p) = Inl OUT_OF_BOUNDS_READ"
        by simp
      with nm check True show ?thesis by (simp add: Let_def)
    next
      case False
      then have "ptr_diff (length bin) ?p = length ?s"
        by (simp add: ptr_diff_def)
      then have len: "strnlen ?s (ptr_diff (length bin) ?p) = Inr (length (name_at bin ?p))"
        using strnlen_whole [of ?s] by (simp add: name_at_def)
      show ?thesis
      proof (cases "length (name_at bin ?p) = length name")
        case True
        then obtain r where "strncmp ?s (name @ [NUL]) (length name) = Inr r"
          and "r = 0 \<longleftrightarrow> name_at bin ?p = name"
          using strncmp_prefix [of name ?s] by (auto simp: name_at_def)
        with nm check False len True show ?thesis
          by (simp add: c_str_def Let_def)
      next
        case ne: False
        with nm check False len show ?thesis by (auto simp: Let_def)
      qed
    qed
  qed
qed

declare scan_section_names.simps(2) [simp del]

lemma scan_step_outside:
  assumes "sh_name W bin (shdr + i * sizeof_Shdr W) = Inr nm"
    and "length bin \<le> ptr_add strings nm" and "data + ptr_add strings nm < ptr_mod"
  shows "scan_section_names W data bin name shdr strings (i # rest) = Inl INVALID_PROGRAM"
proof -
  from assms(2) have "address data (length bin) \<le> data + ptr_add strings nm"
    using address_le [of data "length bin"] by simp
  with assms(3) have "address data (length bin) \<le> address data (ptr_add strings nm)"
    by (simp add: address_inside)
  with assms(1) show ?thesis by (simp add: scan_step)
qed

lemma pointer_inside:
  assumes "data + length bin < ptr_mod" and "p \<le> length bin"
  shows "address data (length bin) \<le> address data p \<longleftrightarrow> p = length bin"
  using assms by (auto simp: address_inside)

lemma scan_step_inside:
  assumes "sh_name W bin (shdr + i * sizeof_Shdr W) = Inr nm"
    and "ptr_add strings nm < length bin" and "data + length bin < ptr_mod"
  shows "scan_section_names W data bin name shdr strings (i # rest) =
     (if name_at bin (ptr_add strings nm) = name then Inr (Some (shdr + i * sizeof_Shdr W))
      else scan_section_names W data bin name shdr strings rest)"
  using assms pointer_inside [of data bin "ptr_add strings nm"]
  by (simp add: scan_step)

lemma scan_step_before:
  assumes nm: "sh_name W bin (shdr + i * sizeof_Shdr W) = Inr nm"
    and before: "ptr_mod \<le> data + ptr_add strings nm" and view: "data + length bin < ptr_mod"
  shows "scan_section_names W data bin name shdr strings (i # rest) = Inl OUT_OF_BOUNDS_READ"
proof -
  let ?p = "ptr_add strings nm"
  from view have "data < ptr_mod" by simp
  with before have "address data ?p = data + ?p - ptr_mod"
    by (intro address_wrapped) (simp_all add: ptr_add_less)
  moreover have "data + ?p - ptr_mod < data"
    using ptr_add_less [of strings nm] before by arith
  moreover from view have "address data (length bin) = data + length bin"
    by (simp add: address_inside)
  ultimately have "\<not> address data (length bin) \<le> address data ?p" by simp
  moreover from before view have "length bin < ?p" by arith
  ultimately show ?thesis using nm by (simp add: scan_step)
qed

section \<open>The whole scan\<close>

lemma scan_Some:
  "scan_section_names W data bin name shdr strings is = Inr (Some h) \<Longrightarrow>
   \<exists>i \<in> set is. \<exists>nm. h = shdr + i * sizeof_Shdr W \<and>
      sh_name W bin (shdr + i * sizeof_Shdr W) = Inr nm \<and>
      name_at bin (ptr_add strings nm) = name"
proof (induction "is")
  case Nil
  then show ?case by simp
next
  case (Cons i rest)
  show ?case
  proof (cases "sh_name W bin (shdr + i * sizeof_Shdr W)")
    case (Inl e)
    with Cons.prems show ?thesis by (simp add: scan_step_read_fails)
  next
    case (Inr nm)
    show ?thesis
    proof (cases "name_at bin (ptr_add strings nm) = name")
      case True
      with Inr Cons.prems show ?thesis
        by (auto simp: scan_step split: if_splits)
    next
      case False
      with Inr Cons.prems
      have "scan_section_names W data bin name shdr strings rest = Inr (Some h)"
        by (simp add: scan_step split: if_splits)
      from Cons.IH [OF this] show ?thesis by auto
    qed
  qed
qed

lemma scan_None:
  "scan_section_names W data bin name shdr strings is = Inr None \<Longrightarrow> i \<in> set is \<Longrightarrow>
   \<exists>nm. sh_name W bin (shdr + i * sizeof_Shdr W) = Inr nm \<and>
      \<not> address data (length bin) \<le> address data (ptr_add strings nm) \<and>
      ptr_add strings nm \<le> length bin \<and> name_at bin (ptr_add strings nm) \<noteq> name"
proof (induction "is")
  case Nil
  then show ?case by simp
next
  case (Cons j rest)
  show ?case
  proof (cases "sh_name W bin (shdr + j * sizeof_Shdr W)")
    case (Inl e)
    with Cons.prems show ?thesis by (simp add: scan_step_read_fails)
  next
    case (Inr nm)
    with Cons.prems have
      check: "\<not> address data (length bin) \<le> address data (ptr_add strings nm)"
      and inside: "ptr_add strings nm \<le> length bin"
      and ne: "name_at bin (ptr_add strings nm) \<noteq> name"
      and rest: "scan_section_names W data bin name shdr strings rest = Inr None"
      by (auto simp: scan_step split: if_splits)
    show ?thesis
    proof (cases "i = j")
      case True
      with Inr check inside ne show ?thesis by auto
    next
      case False
      with Cons.prems have "i \<in> set rest" by simp
      from Cons.IH [OF rest this] show ?thesis .
    qed
  qed
qed

lemma scan_all_inside:
  "(\<And>i. i \<in> set is \<Longrightarrow>
      \<exists>nm. sh_name W bin (shdr + i * sizeof_Shdr W) = Inr nm \<and>
        \<not> address data (length bin) \<le> address data (ptr_add strings nm) \<and>
        ptr_add strings nm \<le> length bin) \<Longrightarrow>
   \<exists>r. scan_section_names W data bin name shdr strings is = Inr r"
proof (induction "is")
  case Nil
  then show ?case by simp
next
  case (Cons j rest)
  from Cons.prems [of j] obtain nm where nm: "sh_name W bin (shdr + j * sizeof_Shdr W) = Inr nm"
    "\<not> address data (length bin) \<le> address data (ptr_add strings nm)"
    "ptr_add strings nm \<le> length bin" by auto
  have "\<exists>r. scan_section_names W data bin name shdr strings rest = Inr r"
    using Cons.IH Cons.prems by simp
  with nm show ?case by (simp add: scan_step)
qed

lemma scan_no_match:
  "(\<And>i. i \<in> set is \<Longrightarrow>
      \<exists>nm. sh_name W bin (shdr + i * sizeof_Shdr W) = Inr nm \<and>
        \<not> address data (length bin) \<le> address data (ptr_add strings nm) \<and>
        ptr_add strings nm \<le> length bin \<and> name_at bin (ptr_add strings nm) \<noteq> name) \<Longrightarrow>
   scan_section_names W data bin name shdr strings is = Inr None"
proof (induction "is")
  case Nil
  then show ?case by simp
next
  case (Cons j rest)
  from Cons.prems [of j] obtain nm where nm: "sh_name W bin (shdr + j * sizeof_Shdr W) = Inr nm"
    "\<not> address data (length bin) \<le> address data (ptr_add strings nm)"
    "ptr_add strings nm \<le> length bin" "name_at bin (ptr_add strings nm) \<noteq> name" by auto
  have "scan_section_names W data bin name shdr strings rest = Inr None"
    using Cons.IH Cons.prems by simp
  with nm show ?case by (simp add: scan_step)
qed

lemma scan_None_any_query:
  assumes "scan_section_names W data bin name shdr strings is = Inr None"
  shows "\<exists>r. scan_section_names W data bin name' shdr strings is = Inr r"
proof (rule scan_all_inside)
  fix i assume "i \<in> set is"
  from scan_None [OF assms this]
  show "\<exists>nm. sh_name W bin (shdr + i * sizeof_Shdr W) = Inr nm \<and>
      \<not> address data (length bin) \<le> address data (ptr_add strings nm) \<and>
      ptr_add strings nm \<le> length bin"
    by auto
qed

section \<open>The checks before the scan\<close>

lemma section_by_name_table:
  "section_by_name W data bin name =
     then_do (section_table W bin) (\<lambda>(shoff, strings, shnum).
       scan_section_names W data bin name shoff strings [0..<shnum])"
  by (simp add: section_by_name_def section_table_def then_do_def Let_def split: sum.splits)

lemma section_table_bounds:
  "section_table W bin = Inr (shoff, strings, shnum) \<Longrightarrow>
   e_shoff W bin = Inr shoff \<and> e_shnum W bin = Inr shnum \<and>
   shoff + shnum * sizeof_Shdr W \<le> length bin"
  by (auto simp: section_table_def then_do_def split: sum.splits if_splits)

lemma section_table_strings:
  "section_table W bin = Inr (shoff, strings, shnum) \<Longrightarrow>
   \<exists>shstrndx. e_shstrndx W bin = Inr shstrndx \<and>
     sh_offset W bin (shoff + shstrndx * sizeof_Shdr W) = Inr strings"
  by (auto simp: section_table_def then_do_def split: sum.splits if_splits)

lemma section_by_name_Inr:
  "section_by_name W data bin name = Inr r \<Longrightarrow>
   \<exists>shoff strings shnum. section_table W bin = Inr (shoff, strings, shnum) \<and>
     scan_section_names W data bin name shoff strings [0..<shnum] = Inr r"
  by (auto simp: section_by_name_table then_do_def split: sum.splits)

lemma section_by_name_Some_bounds:
  assumes "section_by_name W data bin name = Inr (Some h)"
  shows "h + sizeof_Shdr W \<le> length bin"
proof -
  from section_by_name_Inr [OF assms] obtain shoff strings shnum
    where tab: "section_table W bin = Inr (shoff, strings, shnum)"
      and scan: "scan_section_names W data bin name shoff strings [0..<shnum] = Inr (Some h)"
    by blast
  from scan_Some [OF scan] obtain i where i: "i < shnum" and h: "h = shoff + i * sizeof_Shdr W"
    by auto
  from i have "(i + 1) * sizeof_Shdr W \<le> shnum * sizeof_Shdr W"
    by (intro mult_le_mono1) simp
  moreover from section_table_bounds [OF tab] have "shoff + shnum * sizeof_Shdr W \<le> length bin"
    by simp
  ultimately show ?thesis using h by simp
qed

lemma section_by_name_None_any_query:
  assumes "section_by_name W data bin name = Inr None"
  shows "\<exists>r. section_by_name W data bin name' = Inr r"
proof -
  from section_by_name_Inr [OF assms] obtain shoff strings shnum
    where tab: "section_table W bin = Inr (shoff, strings, shnum)"
      and scan: "scan_section_names W data bin name shoff strings [0..<shnum] = Inr None"
    by blast
  from scan_None_any_query [OF scan] tab show ?thesis
    by (simp add: section_by_name_table)
qed

section \<open>Reads inside the image\<close>

lemma read_le_error: "read_le bin off n = Inl e \<Longrightarrow> e = OUT_OF_BOUNDS_READ"
  by (simp add: read_le_def split: if_splits)

lemma sh_size_inside: "h + sizeof_Shdr W \<le> length bin \<Longrightarrow> \<exists>v. sh_size W bin h = Inr v"
  by (simp add: sh_size_def sizeof_Shdr_def read_le_def split: if_splits)

lemma sh_offset_inside: "h + sizeof_Shdr W \<le> length bin \<Longrightarrow> \<exists>v. sh_offset W bin h = Inr v"
  by (simp add: sh_offset_def sizeof_Shdr_def read_le_def split: if_splits)

section \<open>The guard on the section header offset\<close>

lemma le_nat_bound: "le_nat cs < 256 ^ length cs"
proof (induction cs)
  case Nil
  then show ?case by simp
next
  case (Cons c cs)
  have "of_char c < (256 :: nat)" by simp
  then have "of_char c + 256 * le_nat cs < 256 * (le_nat cs + 1)" by simp
  also from Cons have "256 * (le_nat cs + 1) \<le> 256 * 256 ^ length cs"
    by (intro mult_le_mono2) simp
  finally show ?case by simp
qed

lemma read_le_bound:
  assumes "read_le bin off n = Inr v"
  shows "v < 256 ^ n"
proof -
  from assms have v: "v = le_nat (take n (drop off bin))" and "off + n \<le> length bin"
    by (simp_all add: read_le_def split: if_splits)
  then have "length (take n (drop off bin)) = n" by simp
  with le_nat_bound [of "take n (drop off bin)"] v show ?thesis by simp
qed

lemma sh_offset_bound: "sh_offset W bin p = Inr v \<Longrightarrow> v < ptr_mod"
proof -
  assume a: "sh_offset W bin p = Inr v"
  show ?thesis
  proof (cases "W = 4")
    case True
    with a have "v < 256 ^ 4"
      by (auto simp: sh_offset_def dest: read_le_bound)
    then show ?thesis by (simp add: ptr_mod_def)
  next
    case False
    with a have "v < 256 ^ 8"
      by (auto simp: sh_offset_def dest: read_le_bound)
    then show ?thesis by (simp add: ptr_mod_def)
  qed
qed

lemma size_t_sub_no_wrap:
  assumes "sizeof_Shdr W \<le> length bin" and "length bin < size_t_mod"
  shows "(length bin + size_t_mod - sizeof_Shdr W) mod size_t_mod = length bin - sizeof_Shdr W"
proof -
  from assms have e: "length bin + size_t_mod - sizeof_Shdr W
      = (length bin - sizeof_Shdr W) + size_t_mod"
    by arith
  from assms have l: "length bin - sizeof_Shdr W < size_t_mod"
    by arith
  have "(length bin + size_t_mod - sizeof_Shdr W) mod size_t_mod
      = ((length bin - sizeof_Shdr W) + size_t_mod) mod size_t_mod"
    by (simp only: e)
  also have "\<dots> = (length bin - sizeof_Shdr W) mod size_t_mod"
    by (simp only: mod_add_self2)
  also from l have "\<dots> = length bin - sizeof_Shdr W"
    by (rule mod_less)
  finally show ?thesis .
qed

lemma section_by_name_shoff_guard:
  assumes "sizeof_Shdr W \<le> length bin" and "length bin < size_t_mod"
    and "e_shoff W bin = Inr shoff" and "length bin < shoff + sizeof_Shdr W"
  shows "section_by_name W data bin name = Inl INVALID_PROGRAM"
proof -
  from assms have "length bin - sizeof_Shdr W < shoff" by arith
  with assms show ?thesis
    by (simp add: section_by_name_def size_t_sub_no_wrap)
qed

lemma e_shoff_inside: "sizeof_Shdr W \<le> length bin \<Longrightarrow> \<exists>shoff. e_shoff W bin = Inr shoff"
  by (simp add: e_shoff_def sizeof_Shdr_def read_le_def split: if_splits)

lemma e_shoff_empty: "e_shoff W [] = Inl OUT_OF_BOUNDS_READ"
  by (simp add: e_shoff_def read_le_def)

lemma e_shstrndx_short:
  "length bin < sizeof_Shdr W \<Longrightarrow> e_shstrndx W bin = Inl OUT_OF_BOUNDS_READ"
  by (simp add: e_shstrndx_def read_le_def sizeof_Shdr_def split: if_splits)

lemma section_by_name_short:
  assumes "length bin < sizeof_Shdr W"
  shows "section_by_name W data bin name = Inl INVALID_PROGRAM \<or>
    section_by_name W data bin name = Inl OUT_OF_BOUNDS_READ"
proof (cases "e_shoff W bin")
  case (Inl e)
  then have "e = OUT_OF_BOUNDS_READ"
    by (auto simp: e_shoff_def split: if_splits dest: read_le_error)
  with Inl show ?thesis by (simp add: section_by_name_def)
next
  case (Inr shoff)
  with e_shstrndx_short [OF assms] show ?thesis
    by (simp add: section_by_name_def)
qed

section \<open>Well-formed images\<close>

lemma case_sum_False_iff:
  "(case x of Inl e \<Rightarrow> False | Inr v \<Rightarrow> P v) \<longleftrightarrow> (\<exists>v. x = Inr v \<and> P v)"
  by (cases x) simp_all

lemma names_inside_iff:
  "names_inside W bin shoff strings shnum \<longleftrightarrow>
   (\<forall>i < shnum. \<exists>nm. sh_name W bin (shoff + i * sizeof_Shdr W) = Inr nm \<and>
      strings + nm < length bin)"
  by (auto simp: names_inside_def list_all_iff case_sum_False_iff)

lemma well_formed_table:
  assumes "well_formed W data bin"
  shows "\<exists>shoff strings shnum. section_table W bin = Inr (shoff, strings, shnum) \<and>
     names_inside W bin shoff strings shnum"
proof -
  from assms have size: "length bin < size_t_mod"
    by (simp add: well_formed_def)
  from assms obtain shoff where shoff: "e_shoff W bin = Inr shoff"
    by (cases "e_shoff W bin") (simp_all add: well_formed_def)
  from assms shoff obtain shstrndx where ndx: "e_shstrndx W bin = Inr shstrndx"
    by (cases "e_shstrndx W bin") (simp_all add: well_formed_def)
  from assms shoff ndx obtain shnum where shnum: "e_shnum W bin = Inr shnum"
    by (cases "e_shnum W bin") (simp_all add: well_formed_def)
  from assms shoff ndx shnum obtain strings where
    strings: "sh_offset W bin (shoff + shstrndx * sizeof_Shdr W) = Inr strings"
    by (cases "sh_offset W bin (shoff + shstrndx * sizeof_Shdr W)") (simp_all add: well_formed_def)
  from assms shoff ndx shnum strings have
    b1: "shoff + sizeof_Shdr W \<le> length bin" and
    b2: "shoff + (shstrndx + 1) * sizeof_Shdr W \<le> length bin" and
    b3: "shoff + shnum * sizeof_Shdr W \<le> length bin" and
    names: "names_inside W bin shoff strings shnum"
    by (simp_all add: well_formed_def)
  from b1 size have "(length bin + size_t_mod - sizeof_Shdr W) mod size_t_mod
      = length bin - sizeof_Shdr W"
    by (intro size_t_sub_no_wrap) simp_all
  moreover from b1 have "\<not> length bin - sizeof_Shdr W < shoff" by arith
  moreover from b2 have "int (shoff + (shstrndx + 1) * sizeof_Shdr W) \<le> int (length bin)"
    by (simp only: of_nat_le_iff)
  then have "\<not> int (length bin) - int (sizeof_Shdr W) < int (shoff + shstrndx * sizeof_Shdr W)"
    by (simp add: algebra_simps)
  ultimately have "section_table W bin = Inr (shoff, strings, shnum)"
    using shoff ndx shnum strings b3 by (simp add: section_table_def)
  with names show ?thesis by blast
qed

lemma name_pointer_inside:
  assumes "data + length bin < ptr_mod" and "strings + nm < length bin"
  shows "ptr_add strings nm = strings + nm"
    and "\<not> address data (length bin) \<le> address data (ptr_add strings nm)"
    and "ptr_add strings nm \<le> length bin"
proof -
  from assms show p: "ptr_add strings nm = strings + nm"
    by (simp add: ptr_add_inside)
  from assms show "\<not> address data (length bin) \<le> address data (ptr_add strings nm)"
    by (simp add: p address_inside)
  from assms show "ptr_add strings nm \<le> length bin"
    by (simp add: p)
qed

lemma well_formed_view: "well_formed W data bin \<Longrightarrow> data + length bin < ptr_mod"
  by (simp add: well_formed_def)

lemma well_formed_returns:
  assumes "well_formed W data bin"
  shows "\<exists>r. section_by_name W data bin name = Inr r"
proof -
  from well_formed_table [OF assms] obtain shoff strings shnum where
    tab: "section_table W bin = Inr (shoff, strings, shnum)" and
    names: "names_inside W bin shoff strings shnum" by blast
  have "\<exists>r. scan_section_names W data bin name shoff strings [0..<shnum] = Inr r"
  proof (rule scan_all_inside)
    fix i assume "i \<in> set [0..<shnum]"
    with names obtain nm where nm: "sh_name W bin (shoff + i * sizeof_Shdr W) = Inr nm"
      "strings + nm < length bin"
      by (auto simp: names_inside_iff)
    with name_pointer_inside [OF well_formed_view [OF assms] nm(2)]
    show "\<exists>nm. sh_name W bin (shoff + i * sizeof_Shdr W) = Inr nm \<and>
        \<not> address data (length bin) \<le> address data (ptr_add strings nm) \<and>
        ptr_add strings nm \<le> length bin"
      by blast
  qed
  with tab show ?thesis by (simp add: section_by_name_table)
qed

lemma section_name_table:
  assumes "section_table W bin = Inr (shoff, strings, shnum)"
  shows "section_name W bin i =
     then_do (sh_name W bin (shoff + i * sizeof_Shdr W)) (\<lambda>nm.
       Inr (name_at bin (ptr_add strings nm)))"
  using section_table_bounds [OF assms] section_table_strings [OF assms]
  by (auto simp: section_name_def)

section \<open>The scan of the symbols\<close>

lemma strlen_error: "strlen s = Inl e \<Longrightarrow> e = OUT_OF_BOUNDS_READ"
  by (induction s) (auto simp: then_do_def split: if_splits sum.splits)

lemma strlen_terminated: "NUL \<in> set s \<Longrightarrow> \<exists>l. strlen s = Inr l"
  by (induction s) auto

lemma compare_error: "compare name s = Inl e \<Longrightarrow> e = OUT_OF_BOUNDS_READ"
  by (auto simp: compare_def then_do_def split: sum.splits dest: strlen_error)

lemma compare_terminated: "NUL \<in> set s \<Longrightarrow> \<exists>r. compare name s = Inr r"
  using strlen_terminated [of s] by (auto simp: compare_def)

lemma field_error:
  "sh_size W bin p = Inl e \<Longrightarrow> e = OUT_OF_BOUNDS_READ"
  "sh_offset W bin p = Inl e \<Longrightarrow> e = OUT_OF_BOUNDS_READ"
  "sh_name W bin p = Inl e \<Longrightarrow> e = OUT_OF_BOUNDS_READ"
  "st_name W bin p = Inl e \<Longrightarrow> e = OUT_OF_BOUNDS_READ"
  "st_info W bin p = Inl e \<Longrightarrow> e = OUT_OF_BOUNDS_READ"
  "st_value W bin p = Inl e \<Longrightarrow> e = OUT_OF_BOUNDS_READ"
  "r_offset W bin p = Inl e \<Longrightarrow> e = OUT_OF_BOUNDS_READ"
  "r_info W bin p = Inl e \<Longrightarrow> e = OUT_OF_BOUNDS_READ"
  by (auto simp: sh_size_def sh_offset_def sh_name_def st_name_def st_info_def st_value_def
      r_offset_def r_info_def split: if_splits dest: read_le_error)

lemma scan_symbols_error:
  "scan_symbols W bin name symtab strtab is = Inl e \<Longrightarrow> e = OUT_OF_BOUNDS_READ"
proof (induction "is")
  case Nil
  then show ?case by simp
next
  case (Cons i rest)
  show ?case
  proof (cases "st_name W bin (ptr_add symtab (i * sizeof_Sym W))")
    case (Inl e')
    with Cons.prems show ?thesis by (auto dest: field_error)
  next
    case (Inr nm)
    show ?thesis
    proof (cases "compare name (drop (ptr_add strtab nm) bin)")
      case (Inl e')
      with Inr Cons.prems show ?thesis by (auto dest: compare_error)
    next
      case cmp: (Inr r)
      with Inr Cons.prems Cons.IH show ?thesis by (auto split: if_splits)
    qed
  qed
qed

lemma scan_symbols_inside:
  "list_all
     (\<lambda>i. case st_name W bin (ptr_add symtab (i * sizeof_Sym W)) of
             Inl e \<Rightarrow> False
           | Inr nm \<Rightarrow> NUL \<in> set (drop (ptr_add strtab nm) bin)) is \<Longrightarrow>
   \<exists>r. scan_symbols W bin name symtab strtab is = Inr r"
proof (induction "is")
  case Nil
  then show ?case by simp
next
  case (Cons i rest)
  then obtain nm where nm: "st_name W bin (ptr_add symtab (i * sizeof_Sym W)) = Inr nm"
    and nul: "NUL \<in> set (drop (ptr_add strtab nm) bin)"
    by (auto split: sum.splits)
  from compare_terminated [OF nul] obtain r
    where "compare name (drop (ptr_add strtab nm) bin) = Inr r"
    by blast
  with nm Cons show ?case by auto
qed

lemma resolve_symbol_empty: "resolve_symbol W data [] name = Inr None"
  by (simp add: resolve_symbol_def)

lemma resolve_symbol_no_symtab:
  "section_by_name W data bin ''.symtab'' = Inr None \<Longrightarrow>
   resolve_symbol W data bin name = Inr None"
  by (simp add: resolve_symbol_def)

lemma resolve_symbol_no_strtab:
  assumes "section_by_name W data bin ''.strtab'' = Inr None"
  shows "resolve_symbol W data bin name = Inr None"
proof -
  from section_by_name_None_any_query [OF assms] obtain r
    where "section_by_name W data bin ''.symtab'' = Inr r" by blast
  with assms show ?thesis
    by (cases r) (simp_all add: resolve_symbol_def)
qed

lemma resolve_symbol_zero_size:
  "section_by_name W data bin ''.symtab'' = Inr (Some sym_hdr) \<Longrightarrow>
   section_by_name W data bin ''.strtab'' = Inr (Some str_hdr) \<Longrightarrow>
   sh_size W bin sym_hdr = Inr 0 \<Longrightarrow> resolve_symbol W data bin name = Inr None"
  by (simp add: resolve_symbol_def)

lemma resolve_symbol_found:
  assumes "section_by_name W data bin ''.symtab'' = Inr (Some sym_hdr)"
    and "section_by_name W data bin ''.strtab'' = Inr (Some str_hdr)"
    and "sh_size W bin sym_hdr = Inr sz" and "sh_offset W bin sym_hdr = Inr symtab"
    and "sh_offset W bin str_hdr = Inr strtab"
  shows "resolve_symbol W data bin name =
     (if bin = [] \<or> sz = 0 then Inr None
      else scan_symbols W bin name symtab strtab [0..<sz div sizeof_Sym W])"
  using assms sh_offset_bound [of W bin sym_hdr symtab]
  by (simp add: resolve_symbol_def elf_sym_index_def ptr_add_0)

section \<open>Writing to the guest memory and reading it back\<close>

lemma write_bytes_fold:
  "fold (\<lambda>i pg. pg(addr + i := f i)) [0..<n] pages =
     (\<lambda>a. if addr \<le> a \<and> a < addr + n then f (a - addr) else pages a)"
proof (induction n)
  case 0
  then show ?case by (auto simp: fun_eq_iff)
next
  case (Suc n)
  have "fold (\<lambda>i pg. pg(addr + i := f i)) [0..<Suc n] pages =
      (fold (\<lambda>i pg. pg(addr + i := f i)) [0..<n] pages)(addr + n := f n)"
    by simp
  also have "\<dots> =
      (\<lambda>a. if addr \<le> a \<and> a < addr + n then f (a - addr) else pages a)(addr + n := f n)"
    by (simp only: Suc)
  also have "\<dots> = (\<lambda>a. if addr \<le> a \<and> a < addr + Suc n then f (a - addr) else pages a)"
    by (auto simp: fun_eq_iff)
  finally show ?case .
qed

lemma write_bytes_apply:
  "write_bytes W pages addr val a =
     (if addr \<le> a \<and> a < addr + W then char_of (val div 256 ^ (a - addr)) else pages a)"
  by (simp add: write_bytes_def write_bytes_fold)

lemma le_nat_digits:
  "le_nat (map (\<lambda>i. char_of (v div 256 ^ (k + i))) [0..<n]) = (v div 256 ^ k) mod 256 ^ n"
proof (induction n arbitrary: k)
  case 0
  then show ?case by simp
next
  case (Suc n)
  have shift: "v div 256 ^ Suc k = (v div 256 ^ k) div 256"
    by (simp only: power_Suc2 div_mult2_eq)
  have "[0..<Suc n] = 0 # map Suc [0..<n]"
    by (simp add: upt_conv_Cons map_Suc_upt del: upt_Suc)
  then have "le_nat (map (\<lambda>i. char_of (v div 256 ^ (k + i))) [0..<Suc n]) =
      (v div 256 ^ k) mod 256 + 256 * le_nat (map (\<lambda>i. char_of (v div 256 ^ (Suc k + i))) [0..<n])"
    by (simp add: comp_def del: upt_Suc)
  also have "\<dots> = (v div 256 ^ k) mod 256 + 256 * ((v div 256 ^ Suc k) mod 256 ^ n)"
    by (simp only: Suc.IH)
  also have "\<dots> = (v div 256 ^ k) mod 256 + 256 * (((v div 256 ^ k) div 256) mod 256 ^ n)"
    by (simp only: shift)
  also have "\<dots> = (v div 256 ^ k) mod (256 * 256 ^ n)"
    by (simp only: mod_mult2_eq add.commute)
  finally show ?case by simp
qed

lemma read_addr_write_addr:
  "read_addr W (write_addr W mem addr val) addr = val mod 256 ^ W"
proof -
  have eq: "map (\<lambda>i. m_pages (write_addr W mem addr val) (addr + i)) [0..<W]
      = map (\<lambda>i. char_of (val div 256 ^ (0 + i))) [0..<W]"
    by (rule map_cong [OF refl]) (simp add: write_addr_def write_bytes_apply)
  have "read_addr W (write_addr W mem addr val) addr = (val div 256 ^ 0) mod 256 ^ W"
    by (simp only: read_addr_def eq le_nat_digits)
  then show ?thesis by simp
qed

lemma write_addr_other:
  "a < addr \<or> addr + W \<le> a \<Longrightarrow> m_pages (write_addr W mem addr val) a = m_pages mem a"
  by (auto simp: write_addr_def write_bytes_apply)

lemma write_addr_binary [simp]:
  "m_binary (write_addr W mem addr val) = m_binary mem"
  "m_binary_data (write_addr W mem addr val) = m_binary_data mem"
  "m_is_dynamic (write_addr W mem addr val) = m_is_dynamic mem"
  by (simp_all add: write_addr_def)

section \<open>One relocation entry\<close>

lemma relocate_entry_skip:
  assumes "r_info W (m_binary mem) (ptr_add rela_addr (i * sizeof_Rela W)) = Inr info"
    and "elf_sym_index W (m_binary mem) dyn_hdr (RelaSym W info) = Inr symb"
    and "st_info W (m_binary mem) symb = Inr sinfo"
    and "SymbolType sinfo \<noteq> STT_FUNC" and "SymbolType sinfo \<noteq> STT_OBJECT"
  shows "relocate_entry W B rela_addr dyn_hdr i mem = Inr mem"
  using assms by (simp add: relocate_entry_def)

lemma relocate_entry_patch:
  assumes "r_info W (m_binary mem) (ptr_add rela_addr (i * sizeof_Rela W)) = Inr info"
    and "elf_sym_index W (m_binary mem) dyn_hdr (RelaSym W info) = Inr symb"
    and "st_info W (m_binary mem) symb = Inr sinfo"
    and "SymbolType sinfo = STT_FUNC \<or> SymbolType sinfo = STT_OBJECT"
    and "r_offset W (m_binary mem) (ptr_add rela_addr (i * sizeof_Rela W)) = Inr ofs"
    and "elf_base_address W B (m_is_dynamic mem) ofs = Inr addr"
    and "st_value W (m_binary mem) symb = Inr val"
  shows "relocate_entry W B rela_addr dyn_hdr i mem = Inr (write_addr W mem addr val)"
  using assms by (auto simp: relocate_entry_def)

lemma relocate_entry_Inr:
  assumes "relocate_entry W B rela_addr dyn_hdr i mem = Inr mem'"
  shows "\<exists>info symb sinfo.
      r_info W (m_binary mem) (ptr_add rela_addr (i * sizeof_Rela W)) = Inr info \<and>
      elf_sym_index W (m_binary mem) dyn_hdr (RelaSym W info) = Inr symb \<and>
      st_info W (m_binary mem) symb = Inr sinfo \<and>
      (if SymbolType sinfo = STT_FUNC \<or> SymbolType sinfo = STT_OBJECT
       then \<exists>ofs addr val.
          r_offset W (m_binary mem) (ptr_add rela_addr (i * sizeof_Rela W)) = Inr ofs \<and>
          elf_base_address W B (m_is_dynamic mem) ofs = Inr addr \<and>
          st_value W (m_binary mem) symb = Inr val \<and> mem' = write_addr W mem addr val
       else mem' = mem)"
proof -
  let ?e = "ptr_add rela_addr (i * sizeof_Rela W)"
  from assms obtain info where info: "r_info W (m_binary mem) ?e = Inr info"
    by (cases "r_info W (m_binary mem) ?e") (simp_all add: relocate_entry_def)
  from assms info obtain symb where
    symb: "elf_sym_index W (m_binary mem) dyn_hdr (RelaSym W info) = Inr symb"
    by (cases "elf_sym_index W (m_binary mem) dyn_hdr (RelaSym W info)")
      (simp_all add: relocate_entry_def)
  from assms info symb obtain sinfo where sinfo: "st_info W (m_binary mem) symb = Inr sinfo"
    by (cases "st_info W (m_binary mem) symb") (simp_all add: relocate_entry_def)
  show ?thesis
  proof (cases "SymbolType sinfo = STT_FUNC \<or> SymbolType sinfo = STT_OBJECT")
    case False
    with assms info symb sinfo have "mem' = mem"
      by (simp add: relocate_entry_def)
    with info symb sinfo False show ?thesis by auto
  next
    case True
    from assms info symb sinfo True obtain ofs where
      ofs: "r_offset W (m_binary mem) ?e = Inr ofs"
      by (cases "r_offset W (m_binary mem) ?e") (auto simp: relocate_entry_def)
    from assms info symb sinfo True ofs obtain addr where
      addr: "elf_base_address W B (m_is_dynamic mem) ofs = Inr addr"
      by (cases "elf_base_address W B (m_is_dynamic mem) ofs") (auto simp: relocate_entry_def)
    from assms info symb sinfo True ofs addr obtain val where
      val: "st_value W (m_binary mem) symb = Inr val"
      by (cases "st_value W (m_binary mem) symb") (auto simp: relocate_entry_def)
    from assms info symb sinfo True ofs addr val have "mem' = write_addr W mem addr val"
      by (auto simp: relocate_entry_def)
    with info symb sinfo True ofs addr val show ?thesis by auto
  qed
qed

lemma relocate_entries_skip:
  "(\<And>i. i \<in> set is \<Longrightarrow> relocate_entry W B rela_addr dyn_hdr i mem = Inr mem) \<Longrightarrow>
   relocate_entries W B rela_addr dyn_hdr is mem = Inr mem"
  by (induction "is") simp_all

section \<open>Properties of the AddressResolver\<close>

text \<open>
  C2.  For a statically linked image \<open>elf_base_address\<close> returns the offset unchanged.
  For a dynamically linked image it returns \<open>DYLINK_BASE + offset\<close> when the sum does not
  wrap at the address width, and it raises \<open>INVALID_PROGRAM\<close> exactly when the sum, taken
  modulo \<open>2 ^ (8 * W)\<close>, is below \<open>DYLINK_BASE\<close>.  For a base and an offset that are values
  of \<^verbatim>\<open>address_t\<close>, that is exactly when the sum wraps.
\<close>

theorem elf_base_address_spec:
  "elf_base_address W B False off = Inr off \<and>
   (B + off < addr_mod W \<longrightarrow> elf_base_address W B True off = Inr (B + off)) \<and>
   (elf_base_address W B True off = Inl INVALID_PROGRAM \<longleftrightarrow> (B + off) mod addr_mod W < B) \<and>
   (B < addr_mod W \<and> off < addr_mod W \<longrightarrow>
      ((B + off) mod addr_mod W < B \<longleftrightarrow> addr_mod W \<le> B + off))"
proof -
  have wrap: "((B + off) mod addr_mod W < B \<longleftrightarrow> addr_mod W \<le> B + off)"
    if "B < addr_mod W" "off < addr_mod W"
  proof (cases "B + off < addr_mod W")
    case True
    then show ?thesis by simp
  next
    case False
    then have "(B + off) mod addr_mod W = B + off - addr_mod W"
      using that by (simp add: mod_if)
    with False that show ?thesis by simp
  qed
  show ?thesis
    using wrap by (simp add: elf_base_address_def Let_def)
qed

theorem elf_base_address_spec_witness:
  "elf_base_address 4 0x40000 False 0x1000 = Inr 0x1000 \<and>
   elf_base_address 4 0x40000 True 0x1000 = Inr 0x41000 \<and>
   elf_base_address 4 0x40000 True 0xFFFFFFFF = Inl INVALID_PROGRAM"
  using elf_base_address_spec [of 4 "0x40000" "0x1000"]
        elf_base_address_spec [of 4 "0x40000" "0xFFFFFFFF"]
  by (simp add: addr_mod_def)

section \<open>The guard on the offset of the section header array\<close>

text \<open>
  C3, as amended.  The code compares \<^verbatim>\<open>e_shoff\<close> with
  \<^verbatim>\<open>m_binary.size() - sizeof(SectionHeader)\<close>.  An image at least as long as one section
  header holds its \<^verbatim>\<open>e_shoff\<close>, and the comparison is the test of the property: whenever
  \<^verbatim>\<open>e_shoff + sizeof(SectionHeader)\<close> exceeds the length of the image, \<open>section_by_name\<close>
  raises \<open>INVALID_PROGRAM\<close>.  An image shorter than one section header does not hold the
  fields of the ELF header that the lookup reads: there the lookup never returns, it raises
  \<open>INVALID_PROGRAM\<close> or it reads a field of the header outside the image.
\<close>

theorem section_header_offset_guard:
  "(sizeof_Shdr W \<le> length bin \<and> length bin < size_t_mod \<longrightarrow>
      (\<exists>shoff. e_shoff W bin = Inr shoff) \<and>
      (e_shoff W bin = Inr shoff \<and> length bin < shoff + sizeof_Shdr W \<longrightarrow>
         section_by_name W data bin name = Inl INVALID_PROGRAM)) \<and>
   (length bin < sizeof_Shdr W \<longrightarrow>
      section_by_name W data bin name = Inl INVALID_PROGRAM \<or>
      section_by_name W data bin name = Inl OUT_OF_BOUNDS_READ)"
  using e_shoff_inside [of W bin] section_by_name_shoff_guard [of W bin shoff data name]
    section_by_name_short [of bin W data name]
  by blast

text \<open>
  On an image shorter than one section header the outcome need not be \<open>INVALID_PROGRAM\<close>.
  The empty image, the \<^verbatim>\<open>std::string_view\<close> of no bytes at the null pointer, holds no
  \<^verbatim>\<open>e_shoff\<close>: the first statement of the lookup reads the field through
  \<^verbatim>\<open>m_binary.data()\<close>, outside the image, before any check is made, and nothing is raised.
\<close>

theorem empty_image_header_read:
  "length ([] :: raw_image) < sizeof_Shdr 4 \<and>
   e_shoff 4 [] = Inl OUT_OF_BOUNDS_READ \<and>
   section_by_name 4 nullptr [] ''.symtab'' = Inl OUT_OF_BOUNDS_READ \<and>
   section_by_name 4 nullptr [] ''.symtab'' \<noteq> Inl INVALID_PROGRAM \<and>
   e_shoff 8 [] = Inl OUT_OF_BOUNDS_READ \<and>
   section_by_name 8 nullptr [] ''.symtab'' = Inl OUT_OF_BOUNDS_READ"
  by code_simp

theorem section_header_offset_guard_witness:
  "length image_header = 52 \<and> e_shoff 4 image_header = Inr 16 \<and>
   section_by_name 4 image_data image_header ''.symtab'' = Inl INVALID_PROGRAM \<and>
   length image_header64 = 64 \<and> e_shoff 8 image_header64 = Inr 8 \<and>
   section_by_name 8 image_data image_header64 ''.symtab'' = Inl INVALID_PROGRAM \<and>
   length image_short = 38 \<and>
   (section_by_name 4 image_data image_short ''.symtab'' = Inl INVALID_PROGRAM \<or>
    section_by_name 4 image_data image_short ''.symtab'' = Inl OUT_OF_BOUNDS_READ)"
proof -
  have h: "length image_header = 52" "e_shoff 4 image_header = Inr 16"
    "length image_header64 = 64" "e_shoff 8 image_header64 = Inr 8"
    "length image_short = 38"
    by code_simp+
  have s: "sizeof_Shdr 4 = 40" "sizeof_Shdr 8 = 64" "(52::nat) < size_t_mod"
    "(64::nat) < size_t_mod"
    by (simp_all add: sizeof_Shdr_def size_t_mod_def)
  from section_header_offset_guard [of 4 image_header 16 image_data "''.symtab''"] h s
  have a: "section_by_name 4 image_data image_header ''.symtab'' = Inl INVALID_PROGRAM"
    by simp
  from section_header_offset_guard [of 8 image_header64 8 image_data "''.symtab''"] h s
  have b: "section_by_name 8 image_data image_header64 ''.symtab'' = Inl INVALID_PROGRAM"
    by simp
  from section_header_offset_guard [of 4 image_short _ image_data "''.symtab''"] h s
  have c: "section_by_name 4 image_data image_short ''.symtab'' = Inl INVALID_PROGRAM \<or>
    section_by_name 4 image_data image_short ''.symtab'' = Inl OUT_OF_BOUNDS_READ"
    by simp
  from a b c h show ?thesis by simp
qed

section \<open>Properties of the SectionTable\<close>

text \<open>
  C4.  \<open>section_by_name\<close> returns a header only when the name string recovered for that
  section equals the query exactly, byte for byte and in length (for every image, well-formed
  or not).  On a well-formed image it returns, and it returns "not found" when no
  section name equals the query; in particular when the query is longer or shorter than
  every section name.
\<close>

theorem section_by_name_exact:
  "(section_by_name W data bin name = Inr (Some h) \<longrightarrow>
      (\<exists>shnum i. e_shnum W bin = Inr shnum \<and> i < shnum \<and>
         section_header W bin i = Inr h \<and> section_name W bin i = Inr name)) \<and>
   (well_formed W data bin \<longrightarrow> (\<exists>r. section_by_name W data bin name = Inr r)) \<and>
   (well_formed W data bin \<and>
    (\<forall>shnum i. e_shnum W bin = Inr shnum \<and> i < shnum \<longrightarrow> section_name W bin i \<noteq> Inr name)
      \<longrightarrow> section_by_name W data bin name = Inr None) \<and>
   (well_formed W data bin \<and>
    (\<forall>shnum i n. e_shnum W bin = Inr shnum \<and> i < shnum \<and> section_name W bin i = Inr n
        \<longrightarrow> length n \<noteq> length name)
      \<longrightarrow> section_by_name W data bin name = Inr None)"
proof (intro conjI impI)
  assume found: "section_by_name W data bin name = Inr (Some h)"
  from section_by_name_Inr [OF found] obtain shoff strings shnum
    where tab: "section_table W bin = Inr (shoff, strings, shnum)"
      and scan: "scan_section_names W data bin name shoff strings [0..<shnum] = Inr (Some h)"
    by blast
  from scan_Some [OF scan] obtain i nm where i: "i < shnum"
    and h: "h = shoff + i * sizeof_Shdr W"
    and nm: "sh_name W bin (shoff + i * sizeof_Shdr W) = Inr nm"
    and eq: "name_at bin (ptr_add strings nm) = name"
    by auto
  from section_table_bounds [OF tab] h have "section_header W bin i = Inr h"
    by (simp add: section_header_def)
  moreover from nm eq have "section_name W bin i = Inr name"
    by (simp add: section_name_table [OF tab])
  moreover from section_table_bounds [OF tab] have "e_shnum W bin = Inr shnum" by simp
  ultimately show "\<exists>shnum i. e_shnum W bin = Inr shnum \<and> i < shnum \<and>
      section_header W bin i = Inr h \<and> section_name W bin i = Inr name"
    using i by blast
next
  assume "well_formed W data bin"
  then show "\<exists>r. section_by_name W data bin name = Inr r" by (rule well_formed_returns)
next
  assume a: "well_formed W data bin \<and>
    (\<forall>shnum i. e_shnum W bin = Inr shnum \<and> i < shnum \<longrightarrow> section_name W bin i \<noteq> Inr name)"
  from well_formed_table [of W data bin] a obtain shoff strings shnum where
    tab: "section_table W bin = Inr (shoff, strings, shnum)" and
    names: "names_inside W bin shoff strings shnum" by blast
  from section_table_bounds [OF tab] have shnum: "e_shnum W bin = Inr shnum" by simp
  have "scan_section_names W data bin name shoff strings [0..<shnum] = Inr None"
  proof (rule scan_no_match)
    fix i assume "i \<in> set [0..<shnum]"
    then have i: "i < shnum" by simp
    with names obtain nm where nm: "sh_name W bin (shoff + i * sizeof_Shdr W) = Inr nm"
      "strings + nm < length bin"
      by (auto simp: names_inside_iff)
    from a have view: "data + length bin < ptr_mod" by (simp add: well_formed_view [of W])
    from a shnum i have "section_name W bin i \<noteq> Inr name" by blast
    with nm have "name_at bin (ptr_add strings nm) \<noteq> name"
      by (simp add: section_name_table [OF tab])
    with nm(1) name_pointer_inside [OF view nm(2)]
    show "\<exists>nm. sh_name W bin (shoff + i * sizeof_Shdr W) = Inr nm \<and>
        \<not> address data (length bin) \<le> address data (ptr_add strings nm) \<and>
        ptr_add strings nm \<le> length bin \<and> name_at bin (ptr_add strings nm) \<noteq> name"
      by blast
  qed
  with tab show "section_by_name W data bin name = Inr None"
    by (simp add: section_by_name_table)
next
  assume a: "well_formed W data bin \<and>
    (\<forall>shnum i n. e_shnum W bin = Inr shnum \<and> i < shnum \<and> section_name W bin i = Inr n
        \<longrightarrow> length n \<noteq> length name)"
  from well_formed_table [of W data bin] a obtain shoff strings shnum where
    tab: "section_table W bin = Inr (shoff, strings, shnum)" and
    names: "names_inside W bin shoff strings shnum" by blast
  from section_table_bounds [OF tab] have shnum: "e_shnum W bin = Inr shnum" by simp
  have "scan_section_names W data bin name shoff strings [0..<shnum] = Inr None"
  proof (rule scan_no_match)
    fix i assume "i \<in> set [0..<shnum]"
    then have i: "i < shnum" by simp
    with names obtain nm where nm: "sh_name W bin (shoff + i * sizeof_Shdr W) = Inr nm"
      "strings + nm < length bin"
      by (auto simp: names_inside_iff)
    from a have view: "data + length bin < ptr_mod" by (simp add: well_formed_view [of W])
    from nm have "section_name W bin i = Inr (name_at bin (ptr_add strings nm))"
      by (simp add: section_name_table [OF tab])
    with a shnum i have "length (name_at bin (ptr_add strings nm)) \<noteq> length name" by blast
    then have "name_at bin (ptr_add strings nm) \<noteq> name" by auto
    with nm(1) name_pointer_inside [OF view nm(2)]
    show "\<exists>nm. sh_name W bin (shoff + i * sizeof_Shdr W) = Inr nm \<and>
        \<not> address data (length bin) \<le> address data (ptr_add strings nm) \<and>
        ptr_add strings nm \<le> length bin \<and> name_at bin (ptr_add strings nm) \<noteq> name"
      by blast
  qed
  with tab show "section_by_name W data bin name = Inr None"
    by (simp add: section_by_name_table)
qed

theorem section_by_name_exact_witness:
  "well_formed 4 image_data image_dyn \<and>
   section_by_name 4 image_data image_dyn ''.dynsym'' = Inr (Some 245) \<and>
   section_header 4 image_dyn 3 = Inr 245 \<and>
   section_name 4 image_dyn 3 = Inr ''.dynsym'' \<and>
   section_by_name 4 image_data image_dyn ''.dynsy'' = Inr None \<and>
   section_by_name 4 image_data image_dyn ''.dynsymx'' = Inr None"
proof -
  have wf: "well_formed 4 image_data image_dyn" by code_simp
  have shnum: "e_shnum 4 image_dyn = Inr 4" by code_simp
  have names: "section_name 4 image_dyn 0 = Inr ''''"
    "section_name 4 image_dyn 1 = Inr ''.shstrtab''"
    "section_name 4 image_dyn 2 = Inr ''.rela.dyn''"
    "section_name 4 image_dyn 3 = Inr ''.dynsym''"
    by code_simp+
  have found: "section_by_name 4 image_data image_dyn ''.dynsym'' = Inr (Some 245)" by code_simp
  have hdr: "section_header 4 image_dyn 3 = Inr 245" by code_simp
  have len: "length n \<noteq> length q"
    if "e_shnum 4 image_dyn = Inr shnum" "i < shnum" "section_name 4 image_dyn i = Inr n"
      "length q = 6 \<or> length q = 8" for shnum i n and q :: string
  proof -
    from that shnum have "i = 0 \<or> i = 1 \<or> i = 2 \<or> i = 3" by auto
    with that names show ?thesis by auto
  qed
  have "section_by_name 4 image_data image_dyn ''.dynsy'' = Inr None"
    using section_by_name_exact [of 4 image_data image_dyn "''.dynsy''"] wf len [of _ _ _ "''.dynsy''"]
    by auto
  moreover have "section_by_name 4 image_data image_dyn ''.dynsymx'' = Inr None"
    using section_by_name_exact [of 4 image_data image_dyn "''.dynsymx''"] wf len [of _ _ _ "''.dynsymx''"]
    by auto
  ultimately show ?thesis using wf found hdr names by simp
qed

section \<open>Section names at the end of the image\<close>

lemma name_at_unterminated: "NUL \<notin> set (drop p bin) \<Longrightarrow> name_at bin p = drop p bin"
  by (auto simp: name_at_def takeWhile_eq_all_conv)

lemma name_at_terminated_last:
  assumes "p < length bin" and "last bin = NUL" and "NUL \<notin> set (butlast (drop p bin))"
  shows "name_at bin p = butlast (drop p bin)"
proof -
  from assms(1) have ne: "drop p bin \<noteq> []" by simp
  then have "butlast (drop p bin) @ [last (drop p bin)] = drop p bin"
    by (rule append_butlast_last_id)
  moreover from assms(1,2) have "last (drop p bin) = NUL" by simp
  ultimately have split: "butlast (drop p bin) @ [NUL] = drop p bin"
    by simp
  have "name_at bin p = takeWhile (\<lambda>c. c \<noteq> NUL) (butlast (drop p bin) @ [NUL])"
    by (simp only: name_at_def split)
  also have "\<dots> = butlast (drop p bin)"
    using assms(3) by (subst takeWhile_append2) auto
  finally show ?thesis .
qed

text \<open>
  C5, as amended.  For the candidate \<open>i\<close> of the scan, with the name pointer
  \<open>ptr_add strings nm\<close> (the sum \<^verbatim>\<open>&strings[sh_name]\<close> of 64-bit pointer arithmetic): when
  the pointer is at or beyond the end of the image (its offset is not below the length of
  the image, and its address \<open>data + offset\<close> is an address: the pointer has not wrapped
  to a place before the image) the scan fails with \<open>INVALID_PROGRAM\<close>; when it is inside
  the image, also after the sum has wrapped, the candidate is accepted: the scan does not
  fail there, and it returns the header exactly when the recovered name equals the query.
  The recovered name of a string whose terminating NUL is the last byte of the image is the
  bytes before that NUL; the recovered name of a string with no NUL before the end of the
  image is all the bytes up to the end.  (A pointer before the image passes the test
  \<^verbatim>\<open>shname >= endptr\<close> as well, and the name is then read outside the image:
  \<open>scan_step_before\<close>.)
\<close>

theorem scan_candidate_bounds:
  "sh_name W bin (shdr + i * sizeof_Shdr W) = Inr nm \<longrightarrow>
     (length bin \<le> ptr_add strings nm \<and> data + ptr_add strings nm < ptr_mod \<longrightarrow>
        scan_section_names W data bin name shdr strings (i # rest) = Inl INVALID_PROGRAM) \<and>
     (ptr_add strings nm < length bin \<and> data + length bin < ptr_mod \<longrightarrow>
        scan_section_names W data bin name shdr strings (i # rest) =
          (if name_at bin (ptr_add strings nm) = name
           then Inr (Some (shdr + i * sizeof_Shdr W))
           else scan_section_names W data bin name shdr strings rest)) \<and>
     (ptr_add strings nm < length bin \<and> last bin = NUL \<and>
      NUL \<notin> set (butlast (drop (ptr_add strings nm) bin)) \<longrightarrow>
        name_at bin (ptr_add strings nm) = butlast (drop (ptr_add strings nm) bin)) \<and>
     (NUL \<notin> set (drop (ptr_add strings nm) bin) \<longrightarrow>
        name_at bin (ptr_add strings nm) = drop (ptr_add strings nm) bin)"
  by (simp add: scan_step_outside scan_step_inside name_at_unterminated name_at_terminated_last)

text \<open>
  A name string that needs a byte at the end of the image does not always fail.  In
  \<open>image_tail\<close> the name of its third section starts at the
  offset 183 and runs to the end of the image (188) with no NUL, so that reading it as a
  NUL-terminated string needs the byte at the end of the image.  The lookup does not fail:
  it returns that section.
\<close>

theorem unterminated_name_accepted:
  "length image_tail = 188 \<and>
   section_table 4 image_tail = Inr (52, 172, 3) \<and>
   sh_name 4 image_tail (52 + 2 * sizeof_Shdr 4) = Inr 11 \<and>
   ptr_add 172 11 = 183 \<and>
   drop 183 image_tail = ''.tail'' \<and>
   section_by_name 4 image_data image_tail ''.tail'' = Inr (Some 132)"
  by code_simp

text \<open>
  The four cases at examples: the terminating NUL as the last byte of the image
  (\<open>image_tail_nul\<close>), a name pointer at the end of the image (\<open>image_past\<close>), a name
  with no NUL before the end (\<open>image_tail\<close>), and a name pointer that has wrapped back
  into the image (\<open>image_wrap\<close>, a 64-bit image).
\<close>

theorem scan_candidate_bounds_witness:
  "scan_section_names 4 image_data image_tail_nul ''.tail'' 52 172 [2] = Inr (Some 132) \<and>
   name_at image_tail_nul (ptr_add 172 11) = ''.tail'' \<and>
   scan_section_names 4 image_data image_past ''.tail'' 52 172 [2] = Inl INVALID_PROGRAM \<and>
   scan_section_names 4 image_data image_tail ''.tail'' 52 172 [2] = Inr (Some 132) \<and>
   ptr_add (2 ^ 64 - 16) 209 = 193 \<and>
   scan_section_names 8 image_data image_wrap ''.shstrtab'' 64 (2 ^ 64 - 16) [1]
     = Inr (Some 128) \<and>
   section_table 8 image_wrap = Inr (64, 2 ^ 64 - 16, 2) \<and>
   section_by_name 8 image_data image_wrap ''.shstrtab'' = Inr (Some 128)"
proof -
  have view: "image_data + length image_tail_nul < ptr_mod"
    "image_data + length image_tail < ptr_mod" "image_data + length image_wrap < ptr_mod"
    by code_simp+
  have nul: "sh_name 4 image_tail_nul (52 + 2 * sizeof_Shdr 4) = Inr 11"
    "ptr_add 172 11 < length image_tail_nul" "last image_tail_nul = NUL"
    "butlast (drop (ptr_add 172 11) image_tail_nul) = ''.tail''"
    "NUL \<notin> set (''.tail'')"
    by code_simp+
  have past: "sh_name 4 image_past (52 + 2 * sizeof_Shdr 4) = Inr 16"
    "length image_past \<le> ptr_add 172 16" "image_data + ptr_add 172 16 < ptr_mod"
    by code_simp+
  have tail: "sh_name 4 image_tail (52 + 2 * sizeof_Shdr 4) = Inr 11"
    "ptr_add 172 11 < length image_tail" "drop (ptr_add 172 11) image_tail = ''.tail''"
    by code_simp+
  have wrap: "sh_name 8 image_wrap (64 + 1 * sizeof_Shdr 8) = Inr 209"
    "ptr_add (2 ^ 64 - 16) 209 = 193" "193 < length image_wrap"
    "name_at image_wrap 193 = ''.shstrtab''"
    by code_simp+
  have size: "52 + 2 * sizeof_Shdr 4 = 132" "64 + sizeof_Shdr 8 = 128"
    by (simp_all add: sizeof_Shdr_def)
  from scan_candidate_bounds
    [of 4 image_tail_nul 52 2 11 172 image_data "''.tail''" "[]"] nul view
  have a: "name_at image_tail_nul (ptr_add 172 11) = ''.tail''"
    "scan_section_names 4 image_data image_tail_nul ''.tail'' 52 172 [2] = Inr (Some 132)"
    by (simp_all add: size)
  from scan_candidate_bounds
    [of 4 image_past 52 2 16 172 image_data "''.tail''" "[]"] past
  have b: "scan_section_names 4 image_data image_past ''.tail'' 52 172 [2]
      = Inl INVALID_PROGRAM"
    by simp
  from scan_candidate_bounds
    [of 4 image_tail 52 2 11 172 image_data "''.tail''" "[]"] tail nul(5) view
  have c: "scan_section_names 4 image_data image_tail ''.tail'' 52 172 [2] = Inr (Some 132)"
    by (simp add: size)
  from scan_candidate_bounds
    [of 8 image_wrap 64 1 209 "2 ^ 64 - 16" image_data "''.shstrtab''" "[]"] wrap view
  have d: "scan_section_names 8 image_data image_wrap ''.shstrtab'' 64 (2 ^ 64 - 16) [1]
      = Inr (Some 128)"
    by (simp add: size)
  have e: "section_table 8 image_wrap = Inr (64, 2 ^ 64 - 16, 2)"
    "section_by_name 8 image_data image_wrap ''.shstrtab'' = Inr (Some 128)"
    by code_simp+
  from a b c d e wrap(2) show ?thesis by simp
qed

section \<open>Properties of the SymbolResolver\<close>

text \<open>
  C6, as amended.  \<open>resolve_symbol\<close> returns "not found", and no error, on the empty
  image, when the lookup of \<^verbatim>\<open>.symtab\<close> returns "not found", when the lookup of
  \<^verbatim>\<open>.strtab\<close> returns "not found", and when both lookups return a header and the
  \<^verbatim>\<open>sh_size\<close> of \<^verbatim>\<open>.symtab\<close> is 0.  The size of a \<^verbatim>\<open>.symtab\<close> that was found can always be
  read: its header lies inside the image.
\<close>

theorem resolve_symbol_not_found:
  "resolve_symbol W data [] name = Inr None \<and>
   (section_by_name W data bin ''.symtab'' = Inr None \<longrightarrow>
      resolve_symbol W data bin name = Inr None) \<and>
   (section_by_name W data bin ''.strtab'' = Inr None \<longrightarrow>
      resolve_symbol W data bin name = Inr None) \<and>
   (section_by_name W data bin ''.symtab'' = Inr (Some sym_hdr) \<longrightarrow>
      (\<exists>sz. sh_size W bin sym_hdr = Inr sz)) \<and>
   (section_by_name W data bin ''.symtab'' = Inr (Some sym_hdr) \<and>
    section_by_name W data bin ''.strtab'' = Inr (Some str_hdr) \<and>
    sh_size W bin sym_hdr = Inr 0 \<longrightarrow> resolve_symbol W data bin name = Inr None)"
  using section_by_name_Some_bounds [of W data bin "''.symtab''" sym_hdr]
  by (simp add: resolve_symbol_empty resolve_symbol_no_symtab resolve_symbol_no_strtab
      resolve_symbol_zero_size sh_size_inside)

text \<open>
  A \<^verbatim>\<open>.symtab\<close> of size 0 alone is not enough.  In \<open>image_bad_name\<close> the section 2 is a
  \<^verbatim>\<open>.symtab\<close> of size 0, and the name pointer of the section 3 lies outside the image:
  the lookup of \<^verbatim>\<open>.strtab\<close> raises \<open>INVALID_PROGRAM\<close>, and so does \<open>resolve_symbol\<close>.
\<close>

theorem zero_size_symtab_raises:
  "section_by_name 4 image_data image_bad_name ''.symtab'' = Inr (Some 132) \<and>
   sh_size 4 image_bad_name 132 = Inr 0 \<and>
   section_by_name 4 image_data image_bad_name ''.strtab'' = Inl INVALID_PROGRAM \<and>
   resolve_symbol 4 image_data image_bad_name ''foo'' = Inl INVALID_PROGRAM"
  by code_simp

theorem resolve_symbol_not_found_witness:
  "resolve_symbol 4 nullptr [] ''foo'' = Inr None \<and>
   resolve_symbol 4 image_data image_dyn ''foo'' = Inr None \<and>
   resolve_symbol 4 image_data image_no_strtab ''foo'' = Inr None \<and>
   sh_size 4 image_sym_empty 132 = Inr 0 \<and>
   resolve_symbol 4 image_data image_sym_empty ''foo'' = Inr None"
proof -
  have no_symtab: "section_by_name 4 image_data image_dyn ''.symtab'' = Inr None"
    by code_simp
  have no_strtab: "section_by_name 4 image_data image_no_strtab ''.strtab'' = Inr None"
    by code_simp
  have empty: "section_by_name 4 image_data image_sym_empty ''.symtab'' = Inr (Some 132)"
    "section_by_name 4 image_data image_sym_empty ''.strtab'' = Inr (Some 172)"
    "sh_size 4 image_sym_empty 132 = Inr 0"
    by code_simp+
  from resolve_symbol_not_found [of 4 nullptr "''foo''"]
  have "resolve_symbol 4 nullptr [] ''foo'' = Inr None"
    by simp
  moreover from resolve_symbol_not_found [of 4 image_data "''foo''" image_dyn] no_symtab
  have "resolve_symbol 4 image_data image_dyn ''foo'' = Inr None"
    by simp
  moreover from resolve_symbol_not_found [of 4 image_data "''foo''" image_no_strtab] no_strtab
  have "resolve_symbol 4 image_data image_no_strtab ''foo'' = Inr None"
    by simp
  moreover from resolve_symbol_not_found [of 4 image_data "''foo''" image_sym_empty 132 172] empty
  have "resolve_symbol 4 image_data image_sym_empty ''foo'' = Inr None"
    by simp
  ultimately show ?thesis using empty by simp
qed

section \<open>Errors of the SymbolResolver\<close>

lemma resolve_symbol_invalid:
  assumes inv: "resolve_symbol W data bin name = Inl INVALID_PROGRAM"
  shows "section_by_name W data bin ''.symtab'' = Inl INVALID_PROGRAM \<or>
      section_by_name W data bin ''.strtab'' = Inl INVALID_PROGRAM"
proof (cases "section_by_name W data bin ''.symtab''")
  case (Inl e)
  with inv show ?thesis by (simp add: resolve_symbol_def split: if_splits)
next
  case sym: (Inr r)
  show ?thesis
  proof (cases r)
    case None
    with sym inv show ?thesis by (simp add: resolve_symbol_no_symtab)
  next
    case (Some sym_hdr)
    show ?thesis
    proof (cases "section_by_name W data bin ''.strtab''")
      case (Inl e)
      with sym Some inv show ?thesis by (simp add: resolve_symbol_def split: if_splits)
    next
      case str: (Inr r')
      show ?thesis
      proof (cases r')
        case None
        with str inv show ?thesis by (simp add: resolve_symbol_no_strtab)
      next
        case str_hdr: (Some str_hdr)
        from sym Some obtain sz symtab where s: "sh_size W bin sym_hdr = Inr sz"
          "sh_offset W bin sym_hdr = Inr symtab"
          using section_by_name_Some_bounds [of W data bin "''.symtab''" sym_hdr]
            sh_size_inside [of sym_hdr W bin] sh_offset_inside [of sym_hdr W bin] by auto
        from str str_hdr obtain strtab where t: "sh_offset W bin str_hdr = Inr strtab"
          using section_by_name_Some_bounds [of W data bin "''.strtab''" str_hdr]
            sh_offset_inside [of str_hdr W bin] by auto
        from inv sym Some str str_hdr s t
        have "scan_symbols W bin name symtab strtab [0..<sz div sizeof_Sym W]
            = Inl INVALID_PROGRAM"
          by (simp add: resolve_symbol_found split: if_splits)
        from scan_symbols_error [OF this] show ?thesis by simp
      qed
    qed
  qed
qed

lemma resolve_symbol_inside:
  assumes a: "section_by_name W data bin ''.symtab'' = Inr (Some sym_hdr) \<and>
    section_by_name W data bin ''.strtab'' = Inr (Some str_hdr) \<and>
    sh_size W bin sym_hdr = Inr sz \<and> sh_offset W bin sym_hdr = Inr symtab \<and>
    sh_offset W bin str_hdr = Inr strtab \<and>
    symbols_inside W bin symtab strtab (sz div sizeof_Sym W)"
  shows "\<exists>r. resolve_symbol W data bin name = Inr r"
proof -
  from a have "\<exists>r. scan_symbols W bin name symtab strtab [0..<sz div sizeof_Sym W] = Inr r"
    by (intro scan_symbols_inside) (simp add: symbols_inside_def)
  with a show ?thesis
    by (auto simp: resolve_symbol_found)
qed

text \<open>
  C9, as amended.  \<open>resolve_symbol\<close> raises \<open>INVALID_PROGRAM\<close> only when one of its two
  lookups, of \<^verbatim>\<open>.symtab\<close> and of \<^verbatim>\<open>.strtab\<close>, raised it: the scan of the symbols checks
  nothing and raises nothing, whatever the \<^verbatim>\<open>st_name\<close> offsets are.  When the two lookups
  return, \<open>resolve_symbol\<close> returns, a symbol or "not found", or it reads outside the
  image.  When both lookups return a header and every read of the scan stays inside the
  image, \<open>resolve_symbol\<close> returns.
\<close>

theorem resolve_symbol_errors:
  "(resolve_symbol W data bin name = Inl INVALID_PROGRAM \<longrightarrow>
      section_by_name W data bin ''.symtab'' = Inl INVALID_PROGRAM \<or>
      section_by_name W data bin ''.strtab'' = Inl INVALID_PROGRAM) \<and>
   ((\<exists>r. section_by_name W data bin ''.symtab'' = Inr r) \<and>
    (\<exists>r. section_by_name W data bin ''.strtab'' = Inr r) \<longrightarrow>
      (\<exists>r. resolve_symbol W data bin name = Inr r) \<or>
      resolve_symbol W data bin name = Inl OUT_OF_BOUNDS_READ) \<and>
   (section_by_name W data bin ''.symtab'' = Inr (Some sym_hdr) \<and>
    section_by_name W data bin ''.strtab'' = Inr (Some str_hdr) \<and>
    sh_size W bin sym_hdr = Inr sz \<and> sh_offset W bin sym_hdr = Inr symtab \<and>
    sh_offset W bin str_hdr = Inr strtab \<and>
    symbols_inside W bin symtab strtab (sz div sizeof_Sym W) \<longrightarrow>
      (\<exists>r. resolve_symbol W data bin name = Inr r))"
proof (intro conjI impI)
  assume "resolve_symbol W data bin name = Inl INVALID_PROGRAM"
  then show "section_by_name W data bin ''.symtab'' = Inl INVALID_PROGRAM \<or>
      section_by_name W data bin ''.strtab'' = Inl INVALID_PROGRAM"
    by (rule resolve_symbol_invalid)
next
  assume lookups: "(\<exists>r. section_by_name W data bin ''.symtab'' = Inr r) \<and>
    (\<exists>r. section_by_name W data bin ''.strtab'' = Inr r)"
  show "(\<exists>r. resolve_symbol W data bin name = Inr r) \<or>
      resolve_symbol W data bin name = Inl OUT_OF_BOUNDS_READ"
  proof (cases "resolve_symbol W data bin name")
    case (Inl e)
    show ?thesis
    proof (cases e)
      case INVALID_PROGRAM
      with Inl resolve_symbol_invalid [of W data bin name] lookups show ?thesis by auto
    next
      case OUT_OF_BOUNDS_READ
      with Inl show ?thesis by simp
    qed
  next
    case (Inr r)
    then show ?thesis by simp
  qed
next
  assume "section_by_name W data bin ''.symtab'' = Inr (Some sym_hdr) \<and>
    section_by_name W data bin ''.strtab'' = Inr (Some str_hdr) \<and>
    sh_size W bin sym_hdr = Inr sz \<and> sh_offset W bin sym_hdr = Inr symtab \<and>
    sh_offset W bin str_hdr = Inr strtab \<and>
    symbols_inside W bin symtab strtab (sz div sizeof_Sym W)"
  then show "\<exists>r. resolve_symbol W data bin name = Inr r"
    by (rule resolve_symbol_inside)
qed

text \<open>
  When the lookups do not raise, \<open>resolve_symbol\<close> need not return.  In
  \<open>image_sym_outside\<close> both sections are found and lie inside the image, and the
  \<^verbatim>\<open>st_name\<close> of the second symbol is 0x10000, beyond the 276 bytes of the image: the scan
  compares the query with a name string outside the image.
\<close>

theorem symbol_scan_leaves_image:
  "length image_sym_outside = 276 \<and>
   section_by_name 4 image_data image_sym_outside ''.symtab'' = Inr (Some 132) \<and>
   section_by_name 4 image_data image_sym_outside ''.strtab'' = Inr (Some 172) \<and>
   st_name 4 image_sym_outside (ptr_add 244 (1 * sizeof_Sym 4)) = Inr 0x10000 \<and>
   resolve_symbol 4 image_data image_sym_outside ''foo'' = Inl OUT_OF_BOUNDS_READ"
  by code_simp

theorem resolve_symbol_errors_witness:
  "(\<exists>r. resolve_symbol 4 image_data image_sym ''foo'' = Inr r) \<and>
   resolve_symbol 4 image_data image_sym ''foo'' = Inr (Some 260) \<and>
   resolve_symbol 4 image_data image_bad_name ''foo'' = Inl INVALID_PROGRAM \<and>
   (section_by_name 4 image_data image_bad_name ''.symtab'' = Inl INVALID_PROGRAM \<or>
    section_by_name 4 image_data image_bad_name ''.strtab'' = Inl INVALID_PROGRAM)"
proof -
  have sym: "section_by_name 4 image_data image_sym ''.symtab'' = Inr (Some 132)"
    "section_by_name 4 image_data image_sym ''.strtab'' = Inr (Some 172)"
    "sh_size 4 image_sym 132 = Inr 32" "sh_offset 4 image_sym 132 = Inr 244"
    "sh_offset 4 image_sym 172 = Inr 239"
    "symbols_inside 4 image_sym 244 239 (32 div sizeof_Sym 4)"
    by code_simp+
  have found: "resolve_symbol 4 image_data image_sym ''foo'' = Inr (Some 260)"
    by code_simp
  have bad: "resolve_symbol 4 image_data image_bad_name ''foo'' = Inl INVALID_PROGRAM"
    by code_simp
  from resolve_symbol_errors [of 4 image_data image_sym "''foo''" 132 172 32 244 239] sym
  have "\<exists>r. resolve_symbol 4 image_data image_sym ''foo'' = Inr r"
    by simp
  moreover from resolve_symbol_errors [of 4 image_data image_bad_name "''foo''"] bad
  have "section_by_name 4 image_data image_bad_name ''.symtab'' = Inl INVALID_PROGRAM \<or>
    section_by_name 4 image_data image_bad_name ''.strtab'' = Inl INVALID_PROGRAM"
    by simp
  ultimately show ?thesis using found bad by simp
qed

section \<open>Properties of the RelocationEngine\<close>

text \<open>
  C1.  A dynamically linked image whose \<^verbatim>\<open>.rela.dyn\<close> holds one entry, with
  \<^verbatim>\<open>r_offset = 0x1000\<close>, that refers to a symbol of \<^verbatim>\<open>.dynsym\<close> of type \<^verbatim>\<open>OBJECT\<close> with
  \<^verbatim>\<open>st_value = 0xAAAA\<close>, and that has no \<^verbatim>\<open>.rela.plt\<close>: \<open>dynamic_linking\<close> returns, the
  state it leaves is the initial one after the write of \<open>0xAAAA\<close> at
  \<open>DYLINK_BASE + 0x1000\<close>, and the \<^verbatim>\<open>address_t\<close> read there is \<open>0xAAAA\<close>.  The sum
  \<open>DYLINK_BASE + 0x1000\<close> is an address (it does not wrap), and an address has at least
  two bytes.
\<close>

theorem dynamic_linking_patches_object:
  assumes dyn: "m_is_dynamic mem"
    and rela: "section_by_name W (m_binary_data mem) (m_binary mem) ''.rela.dyn'' = Inr (Some rela)"
    and dynsym: "section_by_name W (m_binary_data mem) (m_binary mem) ''.dynsym'' = Inr (Some dyn_hdr)"
    and plt: "section_by_name W (m_binary_data mem) (m_binary mem) ''.rela.plt'' = Inr None"
    and one: "sh_size W (m_binary mem) rela = Inr sz" "sz div sizeof_Rela W = 1"
    and ent: "sh_offset W (m_binary mem) rela = Inr ent"
      "r_offset W (m_binary mem) ent = Inr 0x1000" "r_info W (m_binary mem) ent = Inr info"
    and symbol: "elf_sym_index W (m_binary mem) dyn_hdr (RelaSym W info) = Inr symb"
      "st_info W (m_binary mem) symb = Inr sinfo" "SymbolType sinfo = STT_OBJECT"
      "st_value W (m_binary mem) symb = Inr 0xAAAA"
    and nowrap: "B + 0x1000 < addr_mod W" and width: "2 \<le> W"
  shows "\<exists>mem'. dynamic_linking W B mem hdr = Inr mem' \<and>
      mem' = write_addr W mem (B + 0x1000) 0xAAAA \<and>
      read_addr W mem' (B + 0x1000) = 0xAAAA"
proof -
  let ?mem' = "write_addr W mem (B + 0x1000) 0xAAAA"
  from nowrap dyn have addr: "elf_base_address W B (m_is_dynamic mem) 0x1000 = Inr (B + 0x1000)"
    by (simp add: elf_base_address_def)
  from ent(1) have "ptr_add ent (0 * sizeof_Rela W) = ent"
    by (simp add: ptr_add_0 sh_offset_bound)
  then have "relocate_entry W B ent dyn_hdr 0 mem = Inr ?mem'"
    using relocate_entry_patch [of W mem ent 0 info dyn_hdr symb sinfo "0x1000" B "B + 0x1000" "0xAAAA"]
      ent symbol addr
    by simp
  then have "relocate_entries W B ent dyn_hdr [0..<1] mem = Inr ?mem'"
    by simp
  with rela dynsym one ent have first: "relocate_section W B mem ''.rela.dyn'' ''.dynsym'' = Inr ?mem'"
    by (simp add: relocate_section_def)
  from plt have second: "relocate_section W B ?mem' ''.rela.plt'' ''.dynsym'' = Inr ?mem'"
    by (simp add: relocate_section_def)
  from first second have "dynamic_linking W B mem hdr = Inr ?mem'"
    by (simp add: dynamic_linking_def)
  moreover have "read_addr W ?mem' (B + 0x1000) = 0xAAAA"
  proof -
    have "(256::nat) ^ 2 \<le> 256 ^ W"
      using width by (intro power_increasing) simp_all
    then have "(0xAAAA::nat) < 256 ^ W" by simp
    then show ?thesis by (simp add: read_addr_write_addr)
  qed
  ultimately show ?thesis by blast
qed

theorem dynamic_linking_patches_object_witness:
  "\<exists>mem'. dynamic_linking 4 0x40000 (memory_of image_dyn)
       \<lparr>hdr_e_shoff = 125, hdr_e_shnum = 4, hdr_e_shstrndx = 1\<rparr> = Inr mem' \<and>
     mem' = write_addr 4 (memory_of image_dyn) (0x40000 + 0x1000) 0xAAAA \<and>
     read_addr 4 mem' (0x40000 + 0x1000) = 0xAAAA"
proof -
  have bin: "m_binary (memory_of image_dyn) = image_dyn" "m_is_dynamic (memory_of image_dyn)"
    "m_binary_data (memory_of image_dyn) = image_data"
    by (simp_all add: memory_of_def)
  have sections: "section_by_name 4 image_data image_dyn ''.rela.dyn'' = Inr (Some 205)"
    "section_by_name 4 image_data image_dyn ''.dynsym'' = Inr (Some 245)"
    "section_by_name 4 image_data image_dyn ''.rela.plt'' = Inr None"
    by code_simp+
  have entry: "sh_size 4 image_dyn 205 = Inr 12" "12 div sizeof_Rela 4 = 1"
    "sh_offset 4 image_dyn 205 = Inr 81"
    "r_offset 4 image_dyn 81 = Inr 0x1000" "r_info 4 image_dyn 81 = Inr 257"
    by code_simp+
  have symbol: "elf_sym_index 4 image_dyn 245 (RelaSym 4 257) = Inr 109"
    "st_info 4 image_dyn 109 = Inr 17" "SymbolType 17 = STT_OBJECT"
    "st_value 4 image_dyn 109 = Inr 0xAAAA"
    by code_simp+
  have nowrap: "0x40000 + 0x1000 < addr_mod 4"
    by (simp add: addr_mod_def)
  show ?thesis
    using dynamic_linking_patches_object [of "memory_of image_dyn" 4 205 245 12 81 257 109 17
        "0x40000" "\<lparr>hdr_e_shoff = 125, hdr_e_shnum = 4, hdr_e_shstrndx = 1\<rparr>"]
      sections entry symbol nowrap
    by (simp add: bin)
qed

text \<open>
  C7.  An entry of \<open>relocate_section\<close> whose symbol has a type that is neither \<^verbatim>\<open>FUNC\<close>
  nor \<^verbatim>\<open>OBJECT\<close> leaves the whole state, and so the guest memory at every address,
  as it was, and raises nothing.  An entry that changes the state refers to a symbol of type
  \<^verbatim>\<open>FUNC\<close> or \<^verbatim>\<open>OBJECT\<close>, and the change is the write of the symbol's \<^verbatim>\<open>st_value\<close> at
  \<open>elf_base_address\<close> of the entry's \<^verbatim>\<open>r_offset\<close>.  A run of entries that all refer to
  symbols of other types leaves the state as it was.
\<close>

theorem relocate_entry_symbol_type:
  "(r_info W (m_binary mem) (ptr_add rela_addr (i * sizeof_Rela W)) = Inr info \<and>
    elf_sym_index W (m_binary mem) dyn_hdr (RelaSym W info) = Inr symb \<and>
    st_info W (m_binary mem) symb = Inr sinfo \<and>
    SymbolType sinfo \<noteq> STT_FUNC \<and> SymbolType sinfo \<noteq> STT_OBJECT \<longrightarrow>
      relocate_entry W B rela_addr dyn_hdr i mem = Inr mem) \<and>
   (relocate_entry W B rela_addr dyn_hdr i mem = Inr mem' \<and> mem' \<noteq> mem \<longrightarrow>
      (\<exists>info symb sinfo ofs addr val.
         r_info W (m_binary mem) (ptr_add rela_addr (i * sizeof_Rela W)) = Inr info \<and>
         elf_sym_index W (m_binary mem) dyn_hdr (RelaSym W info) = Inr symb \<and>
         st_info W (m_binary mem) symb = Inr sinfo \<and>
         (SymbolType sinfo = STT_FUNC \<or> SymbolType sinfo = STT_OBJECT) \<and>
         r_offset W (m_binary mem) (ptr_add rela_addr (i * sizeof_Rela W)) = Inr ofs \<and>
         elf_base_address W B (m_is_dynamic mem) ofs = Inr addr \<and>
         st_value W (m_binary mem) symb = Inr val \<and>
         mem' = write_addr W mem addr val)) \<and>
   ((\<forall>j \<in> set is. \<exists>info symb sinfo.
        r_info W (m_binary mem) (ptr_add rela_addr (j * sizeof_Rela W)) = Inr info \<and>
        elf_sym_index W (m_binary mem) dyn_hdr (RelaSym W info) = Inr symb \<and>
        st_info W (m_binary mem) symb = Inr sinfo \<and>
        SymbolType sinfo \<noteq> STT_FUNC \<and> SymbolType sinfo \<noteq> STT_OBJECT) \<longrightarrow>
      relocate_entries W B rela_addr dyn_hdr is mem = Inr mem)"
proof (intro conjI impI)
  assume "r_info W (m_binary mem) (ptr_add rela_addr (i * sizeof_Rela W)) = Inr info \<and>
    elf_sym_index W (m_binary mem) dyn_hdr (RelaSym W info) = Inr symb \<and>
    st_info W (m_binary mem) symb = Inr sinfo \<and>
    SymbolType sinfo \<noteq> STT_FUNC \<and> SymbolType sinfo \<noteq> STT_OBJECT"
  then show "relocate_entry W B rela_addr dyn_hdr i mem = Inr mem"
    by (simp add: relocate_entry_skip)
next
  assume a: "relocate_entry W B rela_addr dyn_hdr i mem = Inr mem' \<and> mem' \<noteq> mem"
  then have r: "relocate_entry W B rela_addr dyn_hdr i mem = Inr mem'" and ne: "mem' \<noteq> mem"
    by simp_all
  from relocate_entry_Inr [OF r] ne
  show "\<exists>info symb sinfo ofs addr val.
         r_info W (m_binary mem) (ptr_add rela_addr (i * sizeof_Rela W)) = Inr info \<and>
         elf_sym_index W (m_binary mem) dyn_hdr (RelaSym W info) = Inr symb \<and>
         st_info W (m_binary mem) symb = Inr sinfo \<and>
         (SymbolType sinfo = STT_FUNC \<or> SymbolType sinfo = STT_OBJECT) \<and>
         r_offset W (m_binary mem) (ptr_add rela_addr (i * sizeof_Rela W)) = Inr ofs \<and>
         elf_base_address W B (m_is_dynamic mem) ofs = Inr addr \<and>
         st_value W (m_binary mem) symb = Inr val \<and>
         mem' = write_addr W mem addr val"
    by (auto split: if_splits)
next
  assume a: "\<forall>j \<in> set is. \<exists>info symb sinfo.
        r_info W (m_binary mem) (ptr_add rela_addr (j * sizeof_Rela W)) = Inr info \<and>
        elf_sym_index W (m_binary mem) dyn_hdr (RelaSym W info) = Inr symb \<and>
        st_info W (m_binary mem) symb = Inr sinfo \<and>
        SymbolType sinfo \<noteq> STT_FUNC \<and> SymbolType sinfo \<noteq> STT_OBJECT"
  show "relocate_entries W B rela_addr dyn_hdr is mem = Inr mem"
  proof (rule relocate_entries_skip)
    fix j assume "j \<in> set is"
    with a show "relocate_entry W B rela_addr dyn_hdr j mem = Inr mem"
      by (auto intro: relocate_entry_skip)
  qed
qed

theorem relocate_entry_symbol_type_witness:
  "relocate_entry 4 0x40000 81 245 0 (memory_of image_notype) = Inr (memory_of image_notype) \<and>
   relocate_entries 4 0x40000 81 245 [0] (memory_of image_notype) = Inr (memory_of image_notype)"
proof -
  have bin: "m_binary (memory_of image_notype) = image_notype"
    by (simp add: memory_of_def)
  have reads: "r_info 4 image_notype (ptr_add 81 (0 * sizeof_Rela 4)) = Inr 1"
    "elf_sym_index 4 image_notype 245 (RelaSym 4 1) = Inr 93"
    "st_info 4 image_notype 93 = Inr 0"
    "SymbolType 0 \<noteq> STT_FUNC" "SymbolType 0 \<noteq> STT_OBJECT"
    by code_simp+
  from relocate_entry_symbol_type
    [of 4 "memory_of image_notype" 81 0 1 245 93 0 "0x40000" _ "[0]"] reads
  show ?thesis
    by (simp add: bin)
qed

text \<open>
  C8.  \<open>dynamic_linking\<close> does not depend on its header argument: with the same image and
  the same guest memory, two headers give the same outcome, be it a final state or an
  error.
\<close>

theorem dynamic_linking_ignores_header:
  "dynamic_linking W B mem hdr1 = dynamic_linking W B mem hdr2"
  by (simp add: dynamic_linking_def)

section \<open>Properties of the register file\<close>

lemma length_regs_of [simp]: "length (regs_of a) = 32"
  using regs_of [of a] by simp

lemma regs_of_update [simp]:
  "regs_of (Abs_reg_array ((regs_of a)[idx := v])) = (regs_of a)[idx := v]"
  by (simp add: Abs_reg_array_inverse)

text \<open>
  C10.  The register file holds exactly 32 registers.  For an index below 32, \<open>at\<close>
  succeeds and returns the stored register (after a store through \<open>at\<close>, the value
  stored).  For an index of 32 or more, \<open>at\<close> raises \<open>OUT_OF_RANGE\<close> and the register file
  is as it was, for a read and for a store alike.  \<open>get\<close> returns the same register for an
  index below 32 and checks nothing: it never raises \<open>OUT_OF_RANGE\<close>.
\<close>

theorem registers_at_bounds:
  "length (regs_of (m_reg regs)) = 32 \<and>
   (idx < 32 \<longrightarrow> at regs idx = (Inr (regs_of (m_reg regs) ! idx), regs)) \<and>
   (idx < 32 \<longrightarrow> (\<exists>regs'. at_store regs idx v = (Inr (), regs') \<and> at regs' idx = (Inr v, regs'))) \<and>
   (32 \<le> idx \<longrightarrow> at regs idx = (Inl OUT_OF_RANGE, regs)) \<and>
   (32 \<le> idx \<longrightarrow> at_store regs idx v = (Inl OUT_OF_RANGE, regs)) \<and>
   (idx < 32 \<longrightarrow> get regs idx = at regs idx) \<and>
   fst (get regs idx) \<noteq> Inl OUT_OF_RANGE \<and>
   fst (get_store regs idx v) \<noteq> Inl OUT_OF_RANGE"
  by (simp add: at_def at_store_def get_def get_store_def)

theorem registers_at_bounds_witness:
  "at zero_registers 31 = (Inr 0, zero_registers) \<and>
   (\<exists>regs'. at_store zero_registers 5 7 = (Inr (), regs') \<and> at regs' 5 = (Inr 7, regs')) \<and>
   at zero_registers 32 = (Inl OUT_OF_RANGE, zero_registers) \<and>
   at_store zero_registers 32 7 = (Inl OUT_OF_RANGE, zero_registers) \<and>
   get zero_registers 31 = at zero_registers 31"
proof -
  have "regs_of (m_reg zero_registers) = replicate 32 0"
    by (simp add: zero_registers_def Abs_reg_array_inverse)
  then have "regs_of (m_reg zero_registers) ! 31 = 0"
    by simp
  with registers_at_bounds [of zero_registers 31] registers_at_bounds [of zero_registers 32 7]
    registers_at_bounds [of zero_registers 5 7]
  show ?thesis by simp
qed

end
